theory Spec2Isabelle
  imports Main "HOL-Library.AList" "HOL-Library.Sublist" "HOL-Library.Multiset" "HOL-Library.Word"
begin

unbundle bit_operations_syntax

section \<open>Size-aware LRU (src/core/lru.ts)\<close>

text \<open>
  The constructor's limits are JavaScript numbers that may be \<open>Infinity\<close>.  Byte
  counts and entry counts are integers; \<open>exceeds x m\<close> is the source's \<open>x > m\<close>.
\<close>

datatype limit = Finite int | Infinity

fun exceeds :: "int \<Rightarrow> limit \<Rightarrow> bool" where
  "exceeds x (Finite m) = (m < x)"
| "exceeds x Infinity = False"

fun limit_nonneg :: "limit \<Rightarrow> bool" where
  "limit_nonneg (Finite m) = (0 \<le> m)"
| "limit_nonneg Infinity = True"

text \<open>
  \<open>LRUNode\<close> without its \<open>prev\<close>/\<open>next\<close> pointers: the doubly linked list between the
  two dummy nodes is the list \<open>nodes\<close>, head (most recently used) first.  The index
  \<open>cache : Map<string, LRUNode>\<close> holds exactly the nodes of that list, so a lookup
  \<open>cache.get(key)\<close> is a search of the list by key.
\<close>

record 'v LRUNode =
  nkey :: string
  nvalue :: 'v
  nsizeBytes :: int

record 'v SizeAwareLRU =
  capacity :: limit
  maxSizeBytes :: limit
  currentSizeBytes :: int
  lru_size :: int
  nodes :: "'v LRUNode list"

definition new_lru :: "limit \<Rightarrow> limit \<Rightarrow> 'v SizeAwareLRU" where
  "new_lru cap maxb =
     \<lparr>capacity = cap, maxSizeBytes = maxb, currentSizeBytes = 0, lru_size = 0, nodes = []\<rparr>"

definition cache_get :: "'v SizeAwareLRU \<Rightarrow> string \<Rightarrow> 'v LRUNode option" where
  "cache_get l k = find (\<lambda>n. nkey n = k) (nodes l)"

text \<open>\<open>removeNode\<close> unlinks the node that the index holds for the key.\<close>

fun removeNode :: "string \<Rightarrow> 'v LRUNode list \<Rightarrow> 'v LRUNode list" where
  "removeNode k [] = []"
| "removeNode k (n # ns) = (if nkey n = k then ns else n # removeNode k ns)"

definition addToFront :: "'v LRUNode \<Rightarrow> 'v LRUNode list \<Rightarrow> 'v LRUNode list" where
  "addToFront n ns = n # ns"

definition moveToFront :: "'v LRUNode \<Rightarrow> 'v LRUNode list \<Rightarrow> 'v LRUNode list" where
  "moveToFront n ns = addToFront n (removeNode (nkey n) ns)"

definition lru_get :: "'v SizeAwareLRU \<Rightarrow> string \<Rightarrow> 'v option \<times> 'v SizeAwareLRU" where
  "lru_get l k =
     (case cache_get l k of
        None \<Rightarrow> (None, l)
      | Some node \<Rightarrow> (Some (nvalue node), l\<lparr>nodes := moveToFront node (nodes l)\<rparr>))"

text \<open>\<open>evictLRU\<close>: the node before the dummy tail, or \<open>undefined\<close> on an empty list.\<close>

definition evictLRU :: "'v SizeAwareLRU \<Rightarrow> 'v option \<times> 'v SizeAwareLRU" where
  "evictLRU l =
     (if nodes l = [] then (None, l)
      else let lru = last (nodes l)
           in (Some (nvalue lru),
               l\<lparr>nodes := butlast (nodes l),
                 lru_size := lru_size l - 1,
                 currentSizeBytes := currentSizeBytes l - nsizeBytes lru\<rparr>))"

text \<open>The \<open>while\<close> loop of \<open>set\<close>, with its safety \<open>break\<close>.\<close>

function evictLoop :: "'v SizeAwareLRU \<Rightarrow> 'v list \<Rightarrow> 'v list \<times> 'v SizeAwareLRU" where
  "evictLoop l evicted =
     (if exceeds (lru_size l) (capacity l) \<or> exceeds (currentSizeBytes l) (maxSizeBytes l)
      then (case evictLRU l of
              (Some evictedValue, l') \<Rightarrow> evictLoop l' (evicted @ [evictedValue])
            | (None, l') \<Rightarrow> (evicted, l'))
      else (evicted, l))"
  by pat_completeness auto
termination
  by (relation "measure (\<lambda>(l, evicted). length (nodes l))")
     (auto simp: evictLRU_def Let_def split: if_splits)

declare evictLoop.simps [simp del]

definition lru_set ::
  "'v SizeAwareLRU \<Rightarrow> string \<Rightarrow> 'v \<Rightarrow> int \<Rightarrow> 'v list \<times> 'v SizeAwareLRU" where
  "lru_set l k v sz =
     (let l1 =
        (case cache_get l k of
           Some existingNode \<Rightarrow>
             l\<lparr>currentSizeBytes := currentSizeBytes l - nsizeBytes existingNode + sz,
               nodes := moveToFront (existingNode\<lparr>nvalue := v, nsizeBytes := sz\<rparr>) (nodes l)\<rparr>
         | None \<Rightarrow>
             l\<lparr>nodes := addToFront \<lparr>nkey = k, nvalue = v, nsizeBytes = sz\<rparr> (nodes l),
               lru_size := lru_size l + 1,
               currentSizeBytes := currentSizeBytes l + sz\<rparr>)
      in evictLoop l1 [])"

definition lru_delete :: "'v SizeAwareLRU \<Rightarrow> string \<Rightarrow> bool \<times> 'v SizeAwareLRU" where
  "lru_delete l k =
     (case cache_get l k of
        None \<Rightarrow> (False, l)
      | Some node \<Rightarrow>
          (True, l\<lparr>nodes := removeNode k (nodes l),
                   lru_size := lru_size l - 1,
                   currentSizeBytes := currentSizeBytes l - nsizeBytes node\<rparr>))"

text \<open>
  Representation invariant of the LRU: one node per key, the two counters agree with
  the list, and no node has a negative size.
\<close>

definition lru_counts :: "'v SizeAwareLRU \<Rightarrow> bool" where
  "lru_counts l =
     (lru_size l = int (length (nodes l)) \<and>
      currentSizeBytes l = sum_list (map nsizeBytes (nodes l)))"

definition lru_inv :: "'v SizeAwareLRU \<Rightarrow> bool" where
  "lru_inv l =
     (distinct (map nkey (nodes l)) \<and> lru_counts l \<and> list_all (\<lambda>n. 0 \<le> nsizeBytes n) (nodes l))"

text \<open>
  Vocabulary for the eviction postcondition: \<open>over l ns\<close> is the loop condition of
  \<open>set\<close> read on a list of nodes, \<open>shrink l m\<close> keeps the \<open>m\<close> most recently used
  nodes, \<open>old_size\<close> is the size the index holds for a key (0 when absent) and
  \<open>inserted\<close> is the list with the written node at the head.
\<close>

definition over :: "'v SizeAwareLRU \<Rightarrow> 'v LRUNode list \<Rightarrow> bool" where
  "over l ns =
     (exceeds (int (length ns)) (capacity l) \<or>
      exceeds (sum_list (map nsizeBytes ns)) (maxSizeBytes l))"

definition shrink :: "'v SizeAwareLRU \<Rightarrow> nat \<Rightarrow> 'v SizeAwareLRU" where
  "shrink l m =
     l\<lparr>nodes := take m (nodes l), lru_size := int m,
       currentSizeBytes := sum_list (map nsizeBytes (take m (nodes l)))\<rparr>"

definition old_size :: "'v SizeAwareLRU \<Rightarrow> string \<Rightarrow> int" where
  "old_size l k = (case cache_get l k of None \<Rightarrow> 0 | Some n \<Rightarrow> nsizeBytes n)"

definition inserted :: "'v SizeAwareLRU \<Rightarrow> string \<Rightarrow> 'v \<Rightarrow> int \<Rightarrow> 'v LRUNode list" where
  "inserted l k v sz = \<lparr>nkey = k, nvalue = v, nsizeBytes = sz\<rparr> # removeNode k (nodes l)"

section \<open>Errors (src/core/errors.ts)\<close>

datatype ErrorCode = CONFLICT | NOT_FOUND | BAD_REQUEST | PAYLOAD_TOO_LARGE | UNAUTHORIZED | INTERNAL

fun getStatusCode :: "ErrorCode \<Rightarrow> int" where
  "getStatusCode CONFLICT = 409"
| "getStatusCode NOT_FOUND = 404"
| "getStatusCode BAD_REQUEST = 400"
| "getStatusCode PAYLOAD_TOO_LARGE = 413"
| "getStatusCode UNAUTHORIZED = 401"
| "getStatusCode INTERNAL = 500"

fun code_name :: "ErrorCode \<Rightarrow> string" where
  "code_name CONFLICT = ''CONFLICT''"
| "code_name NOT_FOUND = ''NOT_FOUND''"
| "code_name BAD_REQUEST = ''BAD_REQUEST''"
| "code_name PAYLOAD_TOO_LARGE = ''PAYLOAD_TOO_LARGE''"
| "code_name UNAUTHORIZED = ''UNAUTHORIZED''"
| "code_name INTERNAL = ''INTERNAL''"

text \<open>
  What a \<open>throw\<close> carries.  A \<open>CacheError\<close> has its code, message and details.  Any other
  \<open>Error\<close> object is its \<open>name\<close> and \<open>message\<close>, the two properties \<open>statusCode\<close> and
  \<open>retryAfter\<close> that \<open>checkBackpressure\<close> attaches by hand (absent otherwise) and
  whether it has a \<open>body\<close> property (the JSON parser's errors do).
\<close>

datatype DetailValue = DString string | DNull

type_synonym ErrorDetails = "(string \<times> DetailValue) list"

record JsError =
  err_name :: string
  err_message :: string
  err_statusCode :: "int option"
  err_retryAfter :: "int option"
  err_hasBody :: bool

datatype thrown = CacheError ErrorCode string "ErrorDetails option" | OtherError JsError

definition plain_error :: "string \<Rightarrow> thrown" where
  "plain_error msg =
     OtherError \<lparr>err_name = ''Error'', err_message = msg, err_statusCode = None,
                 err_retryAfter = None, err_hasBody = False\<rparr>"

definition ConflictError :: "string \<Rightarrow> ErrorDetails \<Rightarrow> thrown" where
  "ConflictError msg details = CacheError CONFLICT msg (Some details)"

definition NotFoundError :: "string \<Rightarrow> thrown" where
  "NotFoundError msg = CacheError NOT_FOUND msg None"

definition BadRequestError :: "string \<Rightarrow> thrown" where
  "BadRequestError msg = CacheError BAD_REQUEST msg None"

definition PayloadTooLargeError :: "string \<Rightarrow> thrown" where
  "PayloadTooLargeError msg = CacheError PAYLOAD_TOO_LARGE msg None"

fun isCacheError :: "thrown \<Rightarrow> bool" where
  "isCacheError (CacheError c m d) = True"
| "isCacheError (OtherError e) = False"

text \<open>Decimal text of an integer, for the template literals of the messages.\<close>

function show_nat :: "nat \<Rightarrow> string" where
  "show_nat n =
     (if n < 10 then [''0123456789'' ! n]
      else show_nat (n div 10) @ [''0123456789'' ! (n mod 10)])"
  by pat_completeness auto
termination
  by (relation "measure id") auto

declare show_nat.simps [simp del]

definition show_int :: "int \<Rightarrow> string" where
  "show_int i = (if i < 0 then CHR ''-'' # show_nat (nat (- i)) else show_nat (nat i))"

section \<open>Values and entries (src/core/types.ts, src/core/validators.ts)\<close>

datatype ValueType = TString | TNumber | TBoolean | TJson | TBytes

fun type_name :: "ValueType \<Rightarrow> string" where
  "type_name TString = ''string''"
| "type_name TNumber = ''number''"
| "type_name TBoolean = ''boolean''"
| "type_name TJson = ''json''"
| "type_name TBytes = ''bytes''"

text \<open>
  A value as a caller hands it over (\<open>unknown\<close> in the source): text, a finite number, a
  number that is not finite (\<open>NaN\<close>, \<open>\<plusminus>Infinity\<close>), a boolean, an object or array (carried
  as the text \<open>JSON.stringify\<close> gives for it), \<open>null\<close> or \<open>undefined\<close>.  The finite
  numbers of the model are the integers, and sums are integer sums: this is the double
  arithmetic of the source for integer values whose sums stay within \<open>\<plusminus>2^53\<close> (the
  increments the boundary admits are 32-bit integers); fractions and larger magnitudes
  are outside the model, and every number evaluated below is small.  Strings are lists
  of 8-bit characters and stand for ASCII text, for which the UTF-8 byte length, the
  number of UTF-16 code units and \<open>length\<close> are the same.
\<close>

datatype JsValue =
  JString string | JNumber int | JNonFinite | JBoolean bool | JObject string | JNull | JUndefined

fun typeof :: "JsValue \<Rightarrow> string" where
  "typeof (JString s) = ''string''"
| "typeof (JNumber n) = ''number''"
| "typeof JNonFinite = ''number''"
| "typeof (JBoolean b) = ''boolean''"
| "typeof (JObject j) = ''object''"
| "typeof JNull = ''object''"
| "typeof JUndefined = ''undefined''"

text \<open>
  A stored value and its \<open>type\<close> field are one tagged value: \<open>createEntry\<close> and
  \<open>executeIncrement\<close> are the only places that build an entry, and both store the type
  together with a value of that type.
\<close>

datatype CacheValue =
  VString string | VNumber int | VBoolean bool | VJson string | VBytes string

fun entry_type :: "CacheValue \<Rightarrow> ValueType" where
  "entry_type (VString s) = TString"
| "entry_type (VNumber n) = TNumber"
| "entry_type (VBoolean b) = TBoolean"
| "entry_type (VJson j) = TJson"
| "entry_type (VBytes b) = TBytes"

fun inferValueType :: "JsValue \<Rightarrow> ValueType" where
  "inferValueType (JString s) = TString"
| "inferValueType (JNumber n) = TNumber"
| "inferValueType (JBoolean b) = TBoolean"
| "inferValueType (JObject j) = TJson"
| "inferValueType v = TString"

text \<open>
  \<open>validateValueType\<close>.  Its only caller is \<open>validateInferredValue\<close>, which passes the
  type \<open>inferValueType\<close> answers, never \<open>'bytes'\<close>; the base64 decoding of that case is
  not modelled, and the case is answered with the source's guard for a value that is
  not text.
\<close>

fun validateValueType :: "JsValue \<Rightarrow> ValueType \<Rightarrow> thrown + CacheValue" where
  "validateValueType (JString s) TString = Inr (VString s)"
| "validateValueType v TString = Inl (BadRequestError (''Expected string, got '' @ typeof v))"
| "validateValueType (JNumber n) TNumber = Inr (VNumber n)"
| "validateValueType v TNumber =
     Inl (BadRequestError (''Expected finite number, got '' @ typeof v))"
| "validateValueType (JBoolean b) TBoolean = Inr (VBoolean b)"
| "validateValueType v TBoolean = Inl (BadRequestError (''Expected boolean, got '' @ typeof v))"
| "validateValueType JNull TJson =
     Inl (BadRequestError ''JSON value cannot be null or undefined'')"
| "validateValueType JUndefined TJson =
     Inl (BadRequestError ''JSON value cannot be null or undefined'')"
| "validateValueType (JObject j) TJson = Inr (VJson j)"
| "validateValueType v TJson =
     Inl (BadRequestError (''Expected object or array for JSON type, got '' @ typeof v))"
| "validateValueType v TBytes = Inl (BadRequestError ''Bytes value must be a base64 string'')"

definition validateInferredValue :: "JsValue \<Rightarrow> thrown + CacheValue" where
  "validateInferredValue v = validateValueType v (inferValueType v)"

fun calculateValueSize :: "CacheValue \<Rightarrow> int" where
  "calculateValueSize (VString s) = int (length s)"
| "calculateValueSize (VNumber n) = 8"
| "calculateValueSize (VBoolean b) = 1"
| "calculateValueSize (VJson j) = int (length j)"
| "calculateValueSize (VBytes b) = int (length b)"

record CacheEntry =
  key :: string
  cvalue :: CacheValue
  version :: string
  createdAt :: int
  updatedAt :: int
  expiresAt :: "int option"
  sizeBytes :: int

text \<open>
  JavaScript truthiness of an optional number and of an optional string: \<open>undefined\<close>,
  \<open>0\<close> and the empty string count as false.
\<close>

fun truthy_num :: "int option \<Rightarrow> bool" where
  "truthy_num None = False"
| "truthy_num (Some n) = (n \<noteq> 0)"

fun truthy_str :: "string option \<Rightarrow> bool" where
  "truthy_str None = False"
| "truthy_str (Some s) = (s \<noteq> [])"

text \<open>The validation schemas of the boundary, as predicates.\<close>

definition TTLSchema :: "int \<Rightarrow> bool" where
  "TTLSchema ttl = (0 \<le> ttl \<and> ttl \<le> 2147483647)"

definition KeySchema :: "string \<Rightarrow> bool" where
  "KeySchema k = (1 \<le> length k \<and> length k \<le> 250)"

definition VersionSchema :: "string \<Rightarrow> bool" where
  "VersionSchema v = (1 \<le> length v)"


section \<open>Min-heap of expirations (src/core/minheap.ts)\<close>

record HeapEntry =
  hkey :: string
  hexpiresAt :: int
  hshard :: int

text \<open>
  The heap is the source's array.  Every index below is in range where the source calls
  it: \<open>push\<close> starts at the last index, \<open>pop\<close> at the root of a non-empty array, and
  the children are compared only after the bounds test.
\<close>

definition swap :: "nat \<Rightarrow> nat \<Rightarrow> HeapEntry list \<Rightarrow> HeapEntry list" where
  "swap i j h = h[i := h ! j, j := h ! i]"

function heapifyUp :: "HeapEntry list \<Rightarrow> nat \<Rightarrow> HeapEntry list" where
  "heapifyUp h index =
     (if index = 0 then h
      else let parentIndex = (index - 1) div 2
           in if hexpiresAt (h ! index) < hexpiresAt (h ! parentIndex)
              then heapifyUp (swap index parentIndex h) parentIndex
              else h)"
  by pat_completeness auto
termination
  by (relation "measure (\<lambda>(h, index). index)") auto

declare heapifyUp.simps [simp del]

definition smallestOf :: "HeapEntry list \<Rightarrow> nat \<Rightarrow> nat" where
  "smallestOf h index =
     (let leftChild = 2 * index + 1;
          rightChild = 2 * index + 2;
          smallest = index;
          smallest = (if leftChild < length h \<and>
                         hexpiresAt (h ! leftChild) < hexpiresAt (h ! smallest)
                      then leftChild else smallest);
          smallest = (if rightChild < length h \<and>
                         hexpiresAt (h ! rightChild) < hexpiresAt (h ! smallest)
                      then rightChild else smallest)
      in smallest)"

function heapifyDown :: "HeapEntry list \<Rightarrow> nat \<Rightarrow> HeapEntry list" where
  "heapifyDown h index =
     (let smallest = smallestOf h index
      in if smallest \<noteq> index then heapifyDown (swap index smallest h) smallest else h)"
  by pat_completeness auto
termination
proof (relation "measure (\<lambda>(h, index). length h - index)")
  show "wf (measure (\<lambda>(h, index). length h - index))" by simp
next
  fix h :: "HeapEntry list" and index smallest :: nat
  assume s: "smallest = smallestOf h index" and ne: "smallest \<noteq> index"
  have "index < smallest \<and> smallest < length h"
    using s ne by (auto simp: smallestOf_def Let_def split: if_splits)
  then show "((swap index smallest h, smallest), (h, index))
               \<in> measure (\<lambda>(h, index). length h - index)"
    by (simp add: swap_def) arith
qed

declare heapifyDown.simps [simp del]

definition push :: "HeapEntry list \<Rightarrow> HeapEntry \<Rightarrow> HeapEntry list" where
  "push h entry = heapifyUp (h @ [entry]) (length h)"

definition pop :: "HeapEntry list \<Rightarrow> HeapEntry option \<times> HeapEntry list" where
  "pop h =
     (if length h = 0 then (None, h)
      else if length h = 1 then (Some (last h), butlast h)
      else (Some (h ! 0), heapifyDown ((butlast h)[0 := last h]) 0))"

definition peek :: "HeapEntry list \<Rightarrow> HeapEntry option" where
  "peek h = (if length h > 0 then Some (h ! 0) else None)"

function popExpired :: "HeapEntry list \<Rightarrow> int \<Rightarrow> HeapEntry list \<times> HeapEntry list" where
  "popExpired h now =
     (if length h > 0 \<and> hexpiresAt (h ! 0) \<le> now
      then (case pop h of
              (Some entry, h') \<Rightarrow>
                (let (expired, h'') = popExpired h' now in (entry # expired, h''))
            | (None, h') \<Rightarrow> popExpired h' now)
      else ([], h))"
  by pat_completeness auto
termination
proof (relation "measure (\<lambda>(h, now). length h)")
  have len_down: "length (heapifyDown h i) = length h" for h i
  proof (induction h i rule: heapifyDown.induct)
    case (1 h index)
    show ?case
    proof (cases "smallestOf h index = index")
      case True
      then show ?thesis by (subst heapifyDown.simps) simp
    next
      case False
      then have "length (heapifyDown h index) =
                 length (heapifyDown (swap index (smallestOf h index) h) (smallestOf h index))"
        by (subst heapifyDown.simps) (simp add: Let_def)
      also have "\<dots> = length (swap index (smallestOf h index) h)"
        using "1.IH"[OF refl False] .
      finally show ?thesis by (simp add: swap_def)
    qed
  qed
  have shorter: "((h', now), (h, now)) \<in> measure (\<lambda>(h, now). length h)"
    if "0 < length h \<and> hexpiresAt (h ! 0) \<le> now" and "(x, h') = pop h"
    for h h' :: "HeapEntry list" and now :: int and x
  proof -
    have "h' = snd (pop h)" using that(2) by (metis snd_conv)
    then show ?thesis using that(1) by (simp add: pop_def len_down)
  qed
  show "wf (measure (\<lambda>(h, now). length h))" by simp
  show "\<And>h now x h' y. 0 < length h \<and> hexpiresAt (h ! 0) \<le> now \<Longrightarrow>
          (x, h') = pop h \<Longrightarrow> x = Some y \<Longrightarrow>
          ((h', now), (h, now)) \<in> measure (\<lambda>(h, now). length h)"
    by (rule shorter)
  show "\<And>h now x h'. 0 < length h \<and> hexpiresAt (h ! 0) \<le> now \<Longrightarrow>
          (x, h') = pop h \<Longrightarrow> x = None \<Longrightarrow>
          ((h', now), (h, now)) \<in> measure (\<lambda>(h, now). length h)"
    by (rule shorter)
qed

declare popExpired.simps [simp del]


section \<open>Shard (class CacheShard)\<close>

record ShardStats =
  stat_entries :: int
  stat_memoryBytes :: int
  hits :: int
  misses :: int
  sets :: int
  deletes :: int
  evictions :: int
  expirations :: int

datatype OpType = OpSet | OpDelete | OpExpire | OpEvict

text \<open>
  The \<open>entry\<close> field of an operation: absent, an entry from \<open>createEntry\<close>, or the
  marker object \<open>{ delta }\<close> that \<open>increment\<close> sends.  The callbacks \<open>resolve\<close> and
  \<open>reject\<close> are the tag \<open>op_id\<close> of the waiting caller.
\<close>

datatype OpPayload = NoEntry | Entry CacheEntry | Delta int

record ShardOperation =
  op_type :: OpType
  op_key :: string
  op_entry :: OpPayload
  ifMatch :: "string option"
  ifNoneMatch :: bool
  op_id :: nat

datatype OpResult = SetResult string "int option" | IncrResult int string | BoolResult bool

type_synonym outcome = "thrown + OpResult"

text \<open>
  The state of one shard.  \<open>entries\<close> is the \<open>Map\<close> as an association list in
  insertion order.  \<open>awaiting\<close> is the caller and the result that the dispatcher
  holds across its \<open>await\<close>.
\<close>

record ShardState =
  shardId :: int
  entries :: "(string \<times> CacheEntry) list"
  lru :: "string SizeAwareLRU"
  ttlHeap :: "HeapEntry list"
  operationQueue :: "ShardOperation list"
  maxItemBytes :: int
  maxMailboxSize :: int
  isProcessing :: bool
  stats :: ShardStats
  awaiting :: "(nat \<times> outcome) option"

definition new_stats :: ShardStats where
  "new_stats =
     \<lparr>stat_entries = 0, stat_memoryBytes = 0, hits = 0, misses = 0, sets = 0, deletes = 0,
      evictions = 0, expirations = 0\<rparr>"

text \<open>The constructor; \<open>memoryBudgetBytes || Infinity\<close> turns a budget of 0 into no budget.\<close>

definition new_shard :: "int \<Rightarrow> int \<Rightarrow> int option \<Rightarrow> int \<Rightarrow> ShardState" where
  "new_shard sid maxItem memoryBudgetBytes maxMailbox =
     \<lparr>shardId = sid, entries = [],
      lru = new_lru Infinity
              (if truthy_num memoryBudgetBytes then Finite (the memoryBudgetBytes) else Infinity),
      ttlHeap = [], operationQueue = [], maxItemBytes = maxItem, maxMailboxSize = maxMailbox,
      isProcessing = False, stats = new_stats, awaiting = None\<rparr>"

definition getStats :: "ShardState \<Rightarrow> ShardStats" where
  "getStats s =
     (stats s)\<lparr>stat_entries := int (length (entries s)),
               stat_memoryBytes := currentSizeBytes (lru s)\<rparr>"

definition deleteEntry :: "ShardState \<Rightarrow> string \<Rightarrow> bool \<times> ShardState" where
  "deleteEntry s k =
     (case map_of (entries s) k of
        None \<Rightarrow> (False, s)
      | Some entry \<Rightarrow>
          (True, s\<lparr>entries := AList.delete k (entries s),
                   lru := snd (lru_delete (lru s) k)\<rparr>))"

text \<open>The read fast path; \<open>now\<close> is the reading of \<open>Date.now()\<close>.\<close>

definition get :: "ShardState \<Rightarrow> int \<Rightarrow> string \<Rightarrow> CacheEntry option \<times> ShardState" where
  "get s now k =
     (case map_of (entries s) k of
        None \<Rightarrow> (None, s\<lparr>stats := (stats s)\<lparr>misses := misses (stats s) + 1\<rparr>\<rparr>)
      | Some entry \<Rightarrow>
          if truthy_num (expiresAt entry) \<and> the (expiresAt entry) \<le> now
          then let s1 = snd (deleteEntry s k)
               in (None, s1\<lparr>stats := (stats s1)\<lparr>misses := misses (stats s1) + 1,
                                                 expirations := expirations (stats s1) + 1\<rparr>\<rparr>)
          else (Some entry,
                s\<lparr>lru := snd (lru_get (lru s) k),
                  stats := (stats s)\<lparr>hits := hits (stats s) + 1\<rparr>\<rparr>))"

definition createEntry :: "string \<Rightarrow> JsValue \<Rightarrow> int option \<Rightarrow> int \<Rightarrow> thrown + CacheEntry" where
  "createEntry k v ttlSec now =
     (case validateInferredValue v of
        Inl err \<Rightarrow> Inl err
      | Inr validatedValue \<Rightarrow>
          Inr \<lparr>key = k, cvalue = validatedValue, version = [],
               createdAt = now, updatedAt = now,
               expiresAt = (if truthy_num ttlSec then Some (now + the ttlSec * 1000) else None),
               sizeBytes = calculateValueSize validatedValue\<rparr>)"

text \<open>\<open>existingEntry?.createdAt || now\<close>\<close>

definition createdAt_or :: "CacheEntry option \<Rightarrow> int \<Rightarrow> int" where
  "createdAt_or existingEntry now =
     (case existingEntry of
        None \<Rightarrow> now
      | Some e \<Rightarrow> if createdAt e \<noteq> 0 then createdAt e else now)"

text \<open>\<open>ulid\<close> is the token that \<open>ulid()\<close> mints for this execution.\<close>

definition executeIncrement ::
  "ShardState \<Rightarrow> int \<Rightarrow> string \<Rightarrow> string \<Rightarrow> int \<Rightarrow> outcome \<times> ShardState" where
  "executeIncrement s now ulid k delta =
     (let existingEntry = map_of (entries s) k
      in case (case existingEntry of
                 None \<Rightarrow> Inr 0
               | Some e \<Rightarrow>
                   (case cvalue e of
                      VNumber n \<Rightarrow> Inr n
                    | _ \<Rightarrow>
                        Inl (BadRequestError
                          (''Cannot increment non-numeric value. Key '' @ [CHR 0x27] @ k @ [CHR 0x27]
                           @ '' contains '' @ type_name (entry_type (cvalue e))
                           @ '' value, but increment requires a number.'')))) of
           Inl err \<Rightarrow> (Inl err, s)
         | Inr currentValue \<Rightarrow>
             let newValue = currentValue + delta;
                 newEntry = \<lparr>key = k, cvalue = VNumber newValue, version = ulid,
                             createdAt = createdAt_or existingEntry now, updatedAt = now,
                             expiresAt = None, sizeBytes = 8\<rparr>
             in (Inr (IncrResult newValue ulid),
                 s\<lparr>entries := AList.update k newEntry (entries s),
                   lru := snd (lru_set (lru s) k k (sizeBytes newEntry)),
                   stats := (stats s)\<lparr>sets := sets (stats s) + 1\<rparr>\<rparr>))"

text \<open>The drain of the keys that \<open>lru.set\<close> evicted, in \<open>executeSet\<close>.\<close>

fun drainEvicted :: "ShardState \<Rightarrow> string list \<Rightarrow> ShardState" where
  "drainEvicted s [] = s"
| "drainEvicted s (evictedKey # rest) =
     (let s1 = snd (deleteEntry s evictedKey)
      in drainEvicted (s1\<lparr>stats := (stats s1)\<lparr>evictions := evictions (stats s1) + 1\<rparr>\<rparr>) rest)"

definition isExpired :: "CacheEntry option \<Rightarrow> int \<Rightarrow> bool" where
  "isExpired existingEntry now =
     (case existingEntry of
        None \<Rightarrow> False
      | Some e \<Rightarrow> truthy_num (expiresAt e) \<and> the (expiresAt e) \<le> now)"

text \<open>\<open>effectiveEntry?.version || null\<close>\<close>

definition actual_version :: "CacheEntry option \<Rightarrow> DetailValue" where
  "actual_version effectiveEntry =
     (case effectiveEntry of
        None \<Rightarrow> DNull
      | Some e \<Rightarrow> if version e \<noteq> [] then DString (version e) else DNull)"

definition executeSet ::
  "ShardState \<Rightarrow> int \<Rightarrow> string \<Rightarrow> ShardOperation \<Rightarrow> outcome \<times> ShardState" where
  "executeSet s now ulid operation =
     (case op_entry operation of
        Delta delta \<Rightarrow> executeIncrement s now ulid (op_key operation) delta
      | NoEntry \<Rightarrow> (Inl (plain_error ''Entry required for set operation''), s)
      | Entry entry \<Rightarrow>
          let k = op_key operation;
              existingEntry = map_of (entries s) k;
              effectiveEntry = (if isExpired existingEntry now then None else existingEntry)
          in if ifNoneMatch operation \<and> effectiveEntry \<noteq> None
             then (Inl (ConflictError ''Key already exists'' [(''key'', DString k)]), s)
             else if truthy_str (ifMatch operation) \<and>
                     (effectiveEntry = None \<or>
                      version (the effectiveEntry) \<noteq> the (ifMatch operation))
             then (Inl (ConflictError ''Version mismatch''
                          [(''key'', DString k),
                           (''expected'', DString (the (ifMatch operation))),
                           (''actual'', actual_version effectiveEntry)]), s)
             else if sizeBytes entry > maxItemBytes s
             then (Inl (PayloadTooLargeError
                          (''Item size '' @ show_int (sizeBytes entry) @ '' exceeds limit ''
                           @ show_int (maxItemBytes s))), s)
             else
               let newEntry = entry\<lparr>version := ulid, updatedAt := now,
                                    createdAt := createdAt_or existingEntry now\<rparr>;
                   s1 = s\<lparr>entries := AList.update k newEntry (entries s),
                          stats := (stats s)\<lparr>sets := sets (stats s) + 1\<rparr>\<rparr>;
                   (evicted, lru') = lru_set (lru s1) k k (sizeBytes newEntry);
                   s2 = drainEvicted (s1\<lparr>lru := lru'\<rparr>) evicted;
                   s3 = (if truthy_num (expiresAt newEntry)
                         then s2\<lparr>ttlHeap := push (ttlHeap s2)
                                   \<lparr>hkey = k, hexpiresAt = the (expiresAt newEntry),
                                    hshard = shardId s2\<rparr>\<rparr>
                         else s2)
               in (Inr (SetResult (version newEntry) (expiresAt newEntry)), s3))"

definition executeDelete :: "ShardState \<Rightarrow> ShardOperation \<Rightarrow> outcome \<times> ShardState" where
  "executeDelete s operation =
     (let k = op_key operation
      in case map_of (entries s) k of
           None \<Rightarrow> (Inr (BoolResult False), s)
         | Some existingEntry \<Rightarrow>
             if truthy_str (ifMatch operation) \<and>
                version existingEntry \<noteq> the (ifMatch operation)
             then (Inl (ConflictError ''Version mismatch''
                          [(''key'', DString k),
                           (''expected'', DString (the (ifMatch operation))),
                           (''actual'', DString (version existingEntry))]), s)
             else let s1 = snd (deleteEntry s k)
                  in (Inr (BoolResult True),
                      s1\<lparr>stats := (stats s1)\<lparr>deletes := deletes (stats s1) + 1\<rparr>\<rparr>))"

definition executeExpire :: "ShardState \<Rightarrow> ShardOperation \<Rightarrow> outcome \<times> ShardState" where
  "executeExpire s operation =
     (let (r, s1) = deleteEntry s (op_key operation) in (Inr (BoolResult r), s1))"

definition executeEvict :: "ShardState \<Rightarrow> ShardOperation \<Rightarrow> outcome \<times> ShardState" where
  "executeEvict s operation =
     (let (r, s1) = deleteEntry s (op_key operation) in (Inr (BoolResult r), s1))"

definition executeOperation ::
  "ShardState \<Rightarrow> int \<Rightarrow> string \<Rightarrow> ShardOperation \<Rightarrow> outcome \<times> ShardState" where
  "executeOperation s now ulid operation =
     (case op_type operation of
        OpSet \<Rightarrow> executeSet s now ulid operation
      | OpDelete \<Rightarrow> executeDelete s operation
      | OpExpire \<Rightarrow> executeExpire s operation
      | OpEvict \<Rightarrow> executeEvict s operation)"


subsection \<open>Mailbox and dispatcher\<close>

text \<open>
  \<open>processOperations\<close> is an \<open>async\<close> loop: it shifts an operation, executes it at once
  (no \<open>execute*\<close> method awaits), and is suspended at its \<open>await\<close> holding the result;
  when it is resumed it answers the caller and goes back to the loop head.  \<open>dispatch\<close>
  is the loop head up to the next suspension, \<open>resume\<close> the continuation after the
  \<open>await\<close>.  \<open>mint c\<close> is the token that \<open>ulid()\<close> returns while the operation of
  caller \<open>c\<close> executes.
\<close>

definition dispatch :: "ShardState \<Rightarrow> int \<Rightarrow> (nat \<Rightarrow> string) \<Rightarrow> ShardState" where
  "dispatch s now mint =
     (case operationQueue s of
        [] \<Rightarrow> s\<lparr>isProcessing := False\<rparr>
      | operation # rest \<Rightarrow>
          let (result, s1) =
                executeOperation (s\<lparr>operationQueue := rest\<rparr>) now (mint (op_id operation))
                  operation
          in s1\<lparr>awaiting := Some (op_id operation, result)\<rparr>)"

definition processOperations :: "ShardState \<Rightarrow> int \<Rightarrow> (nat \<Rightarrow> string) \<Rightarrow> ShardState" where
  "processOperations s now mint =
     (if isProcessing s then s else dispatch (s\<lparr>isProcessing := True\<rparr>) now mint)"

definition resume ::
  "ShardState \<Rightarrow> int \<Rightarrow> (nat \<Rightarrow> string) \<Rightarrow> (nat \<times> outcome) option \<times> ShardState" where
  "resume s now mint =
     (case awaiting s of
        None \<Rightarrow> (None, s)
      | Some reply \<Rightarrow> (Some reply, dispatch (s\<lparr>awaiting := None\<rparr>) now mint))"

text \<open>
  \<open>enqueueOperation\<close>: \<open>Some err\<close> is the rejection at admission; otherwise the operation
  is queued and the dispatcher started if it is idle.
\<close>

definition enqueueOperation ::
  "ShardState \<Rightarrow> int \<Rightarrow> (nat \<Rightarrow> string) \<Rightarrow> ShardOperation \<Rightarrow> thrown option \<times> ShardState" where
  "enqueueOperation s now mint operation =
     (if int (length (operationQueue s)) \<ge> maxMailboxSize s
      then (Some (plain_error ''Shard mailbox full''), s)
      else (None,
            processOperations (s\<lparr>operationQueue := operationQueue s @ [operation]\<rparr>) now mint))"

text \<open>
  Running the dispatcher until it is idle, collecting the answers in the order they are
  given.  Each resumption removes one operation from the queue, so one more resumption
  than the queue is long reaches the idle state.
\<close>

fun drain_steps ::
  "nat \<Rightarrow> ShardState \<Rightarrow> int \<Rightarrow> (nat \<Rightarrow> string) \<Rightarrow> (nat \<times> outcome) list \<times> ShardState" where
  "drain_steps 0 s now mint = ([], s)"
| "drain_steps (Suc n) s now mint =
     (case resume s now mint of
        (None, s') \<Rightarrow> ([], s')
      | (Some reply, s') \<Rightarrow>
          (let (replies, s'') = drain_steps n s' now mint in (reply # replies, s'')))"

definition drain ::
  "ShardState \<Rightarrow> int \<Rightarrow> (nat \<Rightarrow> string) \<Rightarrow> (nat \<times> outcome) list \<times> ShardState" where
  "drain s now mint = drain_steps (Suc (length (operationQueue s))) s now mint"

text \<open>The public mutations of the shard, up to the promise they return.\<close>

definition shard_set ::
  "ShardState \<Rightarrow> int \<Rightarrow> (nat \<Rightarrow> string) \<Rightarrow> nat \<Rightarrow> string \<Rightarrow> JsValue \<Rightarrow> int option \<Rightarrow>
   string option \<Rightarrow> bool \<Rightarrow> thrown option \<times> ShardState" where
  "shard_set s now mint caller k v ttlSec ifM ifNM =
     (case createEntry k v ttlSec now of
        Inl err \<Rightarrow> (Some err, s)
      | Inr entry \<Rightarrow>
          enqueueOperation s now mint
            \<lparr>op_type = OpSet, op_key = k, op_entry = Entry entry, ifMatch = ifM,
             ifNoneMatch = ifNM, op_id = caller\<rparr>)"

definition shard_delete ::
  "ShardState \<Rightarrow> int \<Rightarrow> (nat \<Rightarrow> string) \<Rightarrow> nat \<Rightarrow> string \<Rightarrow> string option \<Rightarrow>
   thrown option \<times> ShardState" where
  "shard_delete s now mint caller k ifM =
     enqueueOperation s now mint
       \<lparr>op_type = OpDelete, op_key = k, op_entry = NoEntry, ifMatch = ifM,
        ifNoneMatch = False, op_id = caller\<rparr>"

definition shard_increment ::
  "ShardState \<Rightarrow> int \<Rightarrow> (nat \<Rightarrow> string) \<Rightarrow> nat \<Rightarrow> string \<Rightarrow> int \<Rightarrow>
   thrown option \<times> ShardState" where
  "shard_increment s now mint caller k delta =
     enqueueOperation s now mint
       \<lparr>op_type = OpSet, op_key = k, op_entry = Delta delta, ifMatch = None,
        ifNoneMatch = False, op_id = caller\<rparr>"

subsection \<open>Periodic sweeper\<close>

text \<open>
  \<open>processExpirations\<close>: the promise of each \<open>enqueueOperation\<close> is dropped, so a
  rejection at admission is lost; \<open>caller\<close> tags the operations nobody waits for.
\<close>

fun enqueueExpired ::
  "ShardState \<Rightarrow> int \<Rightarrow> (nat \<Rightarrow> string) \<Rightarrow> nat \<Rightarrow> HeapEntry list \<Rightarrow> ShardState" where
  "enqueueExpired s now mint caller [] = s"
| "enqueueExpired s now mint caller (entry # rest) =
     (if map_of (entries s) (hkey entry) \<noteq> None
      then enqueueExpired
             (snd (enqueueOperation s now mint
                     \<lparr>op_type = OpExpire, op_key = hkey entry, op_entry = NoEntry,
                      ifMatch = None, ifNoneMatch = False, op_id = caller\<rparr>))
             now mint caller rest
      else enqueueExpired s now mint caller rest)"

definition processExpirations ::
  "ShardState \<Rightarrow> int \<Rightarrow> (nat \<Rightarrow> string) \<Rightarrow> nat \<Rightarrow> ShardState" where
  "processExpirations s now mint caller =
     (let (expired, h) = popExpired (ttlHeap s) now
      in enqueueExpired (s\<lparr>ttlHeap := h\<rparr>) now mint caller expired)"

section \<open>Boundary: error handler and routes\<close>

text \<open>
  A response: its status, its headers and its JSON body, which is empty, an error
  (\<open>code\<close> and \<open>message\<close>) or the answer to a write (\<open>version\<close> and \<open>expiresAt\<close>).
\<close>

datatype Body = NoBody | ErrorBody string string | VersionBody string "int option"

record HttpResponse =
  status :: int
  headers :: "(string \<times> string) list"
  body :: Body

text \<open>\<open>message.includes(part)\<close>\<close>

fun str_includes :: "string \<Rightarrow> string \<Rightarrow> bool" where
  "str_includes [] part = (part = [])"
| "str_includes (c # cs) part = (prefix part (c # cs) \<or> str_includes cs part)"

text \<open>
  \<open>errorHandler\<close>, without its logging and its metric.  The header value is
  \<open>retryAfter || '1'\<close>.
\<close>

definition errorHandler :: "thrown \<Rightarrow> HttpResponse" where
  "errorHandler error =
     (case error of
        CacheError c msg details \<Rightarrow>
          \<lparr>status = getStatusCode c, headers = [], body = ErrorBody (code_name c) msg\<rparr>
      | OtherError e \<Rightarrow>
          if err_statusCode e = Some 503
          then \<lparr>status = 503,
                headers = [(''Retry-After'',
                            if truthy_num (err_retryAfter e) then show_int (the (err_retryAfter e))
                            else ''1'')],
                body = ErrorBody ''SERVICE_UNAVAILABLE'' ''Service temporarily overloaded''\<rparr>
          else if err_name e = ''ZodError'' \<or> str_includes (err_message e) ''validation''
          then \<lparr>status = 400, headers = [], body = ErrorBody ''BAD_REQUEST'' ''Invalid request data''\<rparr>
          else if err_name e = ''SyntaxError'' \<and> err_hasBody e
          then \<lparr>status = 400, headers = [], body = ErrorBody ''BAD_REQUEST'' ''Invalid JSON in request body''\<rparr>
          else if err_message e = ''Request timeout''
          then \<lparr>status = 408, headers = [], body = ErrorBody ''REQUEST_TIMEOUT'' ''Request timed out''\<rparr>
          else \<lparr>status = 500, headers = [], body = ErrorBody ''INTERNAL'' ''Internal server error''\<rparr>)"


section \<open>Store (getShardForKey and class CacheStore)\<close>

text \<open>
  \<open>simpleHash\<close>: \<open><<\<close> and \<open>&\<close> work on 32-bit integers, so the running hash is a
  32-bit word; the mask keeps it below \<open>2^31\<close>.  \<open>charCodeAt\<close> is the character's code
  for the ASCII keys of the model.
\<close>

definition hash_step :: "32 word \<Rightarrow> char \<Rightarrow> 32 word" where
  "hash_step hash c = (push_bit 5 hash - hash + of_nat (of_char c)) AND 0x7fffffff"

definition simpleHash :: "string \<Rightarrow> int \<Rightarrow> thrown + nat" where
  "simpleHash k n =
     (if n \<le> 0 then Inl (plain_error ''Number of shards must be positive'')
      else Inr (nat (uint (foldl hash_step 0 k) mod n)))"

definition getShardForKey :: "string \<Rightarrow> int \<Rightarrow> thrown + nat" where
  "getShardForKey k n = simpleHash k n"

text \<open>
  The store.  The constructor builds \<open>numShards\<close> shards and neither field changes
  afterwards, so \<open>numShards\<close> is read as the length of \<open>shards\<close>.
\<close>

record CacheStore =
  shards :: "ShardState list"
  maxInflight :: int
  currentInflight :: int

definition numShards :: "CacheStore \<Rightarrow> int" where
  "numShards st = int (length (shards st))"

definition new_store :: "nat \<Rightarrow> int \<Rightarrow> int option \<Rightarrow> int \<Rightarrow> int \<Rightarrow> CacheStore" where
  "new_store n maxItem memoryBudgetBytes maxInfl maxShardMailbox =
     (let perShardMemoryBudget =
            (if truthy_num memoryBudgetBytes then Some (the memoryBudgetBytes div int n) else None)
      in \<lparr>shards = map (\<lambda>i. new_shard (int i) maxItem perShardMemoryBudget maxShardMailbox) [0..<n],
          maxInflight = maxInfl, currentInflight = 0\<rparr>)"

definition overloaded_error :: thrown where
  "overloaded_error =
     OtherError \<lparr>err_name = ''Error'', err_message = ''Service overloaded'',
                 err_statusCode = Some 503, err_retryAfter = Some 0, err_hasBody = False\<rparr>"

definition checkBackpressure :: "CacheStore \<Rightarrow> thrown option" where
  "checkBackpressure st =
     (if currentInflight st \<ge> maxInflight st then Some overloaded_error else None)"

text \<open>
  A public call of the store, run until its promise settles.  \<open>currentInflight\<close> goes up
  and down by one around the call.  The answer is \<open>None\<close> when the promise is still
  pending after the dispatcher went idle.
\<close>

definition await_reply ::
  "nat \<Rightarrow> thrown option \<times> ShardState \<Rightarrow> int \<Rightarrow> (nat \<Rightarrow> string) \<Rightarrow> outcome option \<times> ShardState" where
  "await_reply caller r now mint =
     (case r of
        (Some err, s) \<Rightarrow> (Some (Inl err), s)
      | (None, s) \<Rightarrow> (let (replies, s') = drain s now mint in (map_of replies caller, s')))"

definition store_get ::
  "CacheStore \<Rightarrow> int \<Rightarrow> string \<Rightarrow> (thrown + CacheEntry option) \<times> CacheStore" where
  "store_get st now k =
     (case checkBackpressure st of
        Some err \<Rightarrow> (Inl err, st)
      | None \<Rightarrow>
          (case getShardForKey k (numShards st) of
             Inl err \<Rightarrow> (Inl err, st)
           | Inr i \<Rightarrow>
               (let (r, s') = get (shards st ! i) now k
                in (Inr r, st\<lparr>shards := (shards st)[i := s']\<rparr>))))"

definition store_set ::
  "CacheStore \<Rightarrow> int \<Rightarrow> (nat \<Rightarrow> string) \<Rightarrow> nat \<Rightarrow> string \<Rightarrow> JsValue \<Rightarrow> int option \<Rightarrow>
   string option \<Rightarrow> bool \<Rightarrow> outcome option \<times> CacheStore" where
  "store_set st now mint caller k v ttlSec ifM ifNM =
     (case checkBackpressure st of
        Some err \<Rightarrow> (Some (Inl err), st)
      | None \<Rightarrow>
          (case getShardForKey k (numShards st) of
             Inl err \<Rightarrow> (Some (Inl err), st)
           | Inr i \<Rightarrow>
               (let (r, s') = await_reply caller
                                (shard_set (shards st ! i) now mint caller k v ttlSec ifM ifNM)
                                now mint
                in (r, st\<lparr>shards := (shards st)[i := s']\<rparr>))))"

definition store_delete ::
  "CacheStore \<Rightarrow> int \<Rightarrow> (nat \<Rightarrow> string) \<Rightarrow> nat \<Rightarrow> string \<Rightarrow> string option \<Rightarrow>
   outcome option \<times> CacheStore" where
  "store_delete st now mint caller k ifM =
     (case checkBackpressure st of
        Some err \<Rightarrow> (Some (Inl err), st)
      | None \<Rightarrow>
          (case getShardForKey k (numShards st) of
             Inl err \<Rightarrow> (Some (Inl err), st)
           | Inr i \<Rightarrow>
               (let (r, s') = await_reply caller
                                (shard_delete (shards st ! i) now mint caller k ifM) now mint
                in (r, st\<lparr>shards := (shards st)[i := s']\<rparr>))))"

definition store_increment ::
  "CacheStore \<Rightarrow> int \<Rightarrow> (nat \<Rightarrow> string) \<Rightarrow> nat \<Rightarrow> string \<Rightarrow> int \<Rightarrow>
   outcome option \<times> CacheStore" where
  "store_increment st now mint caller k delta =
     (case checkBackpressure st of
        Some err \<Rightarrow> (Some (Inl err), st)
      | None \<Rightarrow>
          (case getShardForKey k (numShards st) of
             Inl err \<Rightarrow> (Some (Inl err), st)
           | Inr i \<Rightarrow>
               (let (r, s') = await_reply caller
                                (shard_increment (shards st ! i) now mint caller k delta) now mint
                in (r, st\<lparr>shards := (shards st)[i := s']\<rparr>))))"

subsection \<open>Batch operations\<close>

datatype BatchStatus = Created | Updated | Skipped | Deleted | Missing | Failed

record BatchResult =
  br_key :: string
  br_status :: BatchStatus
  br_version :: "string option"
  br_error :: "string option"

record BatchSetItem =
  item_key :: string
  item_value :: JsValue
  item_ttlSec :: "int option"

fun error_message :: "thrown \<Rightarrow> string" where
  "error_message (CacheError c msg details) = msg"
| "error_message (OtherError e) = err_message e"

text \<open>
  \<open>keysByShard\<close>/\<open>itemsByShard\<close>: a \<open>Map\<close> from shard to the items routed to it, in the
  order the shards are first met; \<open>issue_order\<close> is the order in which the two nested
  iterations then reach the items.
\<close>

fun groupByShard :: "('a \<Rightarrow> nat) \<Rightarrow> 'a list \<Rightarrow> (nat \<times> 'a list) list \<Rightarrow> (nat \<times> 'a list) list" where
  "groupByShard shardOf [] groups = groups"
| "groupByShard shardOf (x # xs) groups =
     groupByShard shardOf xs
       (case map_of groups (shardOf x) of
          None \<Rightarrow> groups @ [(shardOf x, [x])]
        | Some ys \<Rightarrow> AList.update (shardOf x) (ys @ [x]) groups)"

definition issue_order :: "(nat \<times> 'a list) list \<Rightarrow> (nat \<times> 'a) list" where
  "issue_order groups = concat (map (\<lambda>(i, xs). map (Pair i) xs) groups)"

text \<open>
  The \<open>sort\<close> before returning: \<open>keyOrder\<close> is \<open>new Map(keys.map((key, index) => [key,
  index]))\<close>, where a later pair replaces an earlier one with the same key, and the
  comparator is \<open>(keyOrder.get(a.key) || 0) - (keyOrder.get(b.key) || 0)\<close>.
  \<open>Array.prototype.sort\<close> is stable, as \<open>sort_key\<close> is.
\<close>

definition keyOrder :: "string list \<Rightarrow> string \<Rightarrow> nat option" where
  "keyOrder ks = map_of (rev (zip ks [0..<length ks]))"

definition order_index :: "string list \<Rightarrow> string \<Rightarrow> nat" where
  "order_index ks k = (case keyOrder ks k of None \<Rightarrow> 0 | Some i \<Rightarrow> i)"

definition sortResults :: "string list \<Rightarrow> BatchResult list \<Rightarrow> BatchResult list" where
  "sortResults ks results = sort_key (\<lambda>r. order_index ks (br_key r)) results"

text \<open>
  The fan-out.  All operations are handed to their shards first (callers numbered in
  issue order from 0); then every dispatcher runs until idle.  \<open>results\<close> receives one
  record per settled promise, in the order of settlement, which is not the issue order
  (a call refused before it is queued settles ahead of the executed ones).  The model
  lists the records in issue order before the sort: the keys of the sorted results are
  the same for every order of settlement (\<open>sortResults_keys_any_order\<close> below), since
  records with equal sort index have the same key.
\<close>

fun issueDeletes ::
  "CacheStore \<Rightarrow> int \<Rightarrow> (nat \<Rightarrow> string) \<Rightarrow> nat \<Rightarrow> (nat \<times> string) list \<Rightarrow>
   thrown option list \<times> CacheStore" where
  "issueDeletes st now mint c [] = ([], st)"
| "issueDeletes st now mint c ((i, k) # rest) =
     (let (r, s') = shard_delete (shards st ! i) now mint c k None;
          (rs, st') = issueDeletes (st\<lparr>shards := (shards st)[i := s']\<rparr>) now mint (Suc c) rest
      in (r # rs, st'))"

fun issueSets ::
  "CacheStore \<Rightarrow> int \<Rightarrow> (nat \<Rightarrow> string) \<Rightarrow> nat \<Rightarrow> (nat \<times> BatchSetItem) list \<Rightarrow>
   thrown option list \<times> CacheStore" where
  "issueSets st now mint c [] = ([], st)"
| "issueSets st now mint c ((i, item) # rest) =
     (let (r, s') = shard_set (shards st ! i) now mint c (item_key item) (item_value item)
                      (item_ttlSec item) None False;
          (rs, st') = issueSets (st\<lparr>shards := (shards st)[i := s']\<rparr>) now mint (Suc c) rest
      in (r # rs, st'))"

definition drainAll ::
  "CacheStore \<Rightarrow> int \<Rightarrow> (nat \<Rightarrow> string) \<Rightarrow> (nat \<times> outcome) list \<times> CacheStore" where
  "drainAll st now mint =
     (let rs = map (\<lambda>s. drain s now mint) (shards st)
      in (concat (map fst rs), st\<lparr>shards := map snd rs\<rparr>))"

definition settle :: "(nat \<times> outcome) list \<Rightarrow> nat \<Rightarrow> thrown option \<Rightarrow> outcome option" where
  "settle replies c r = (case r of Some err \<Rightarrow> Some (Inl err) | None \<Rightarrow> map_of replies c)"

fun deleteResult :: "string \<Rightarrow> outcome \<Rightarrow> BatchResult" where
  "deleteResult k (Inr (BoolResult deleted)) =
     \<lparr>br_key = k, br_status = (if deleted then Deleted else Missing), br_version = None,
      br_error = None\<rparr>"
| "deleteResult k (Inr other) =
     \<lparr>br_key = k, br_status = Deleted, br_version = None, br_error = None\<rparr>"
| "deleteResult k (Inl error) =
     \<lparr>br_key = k, br_status = Failed, br_version = None, br_error = Some (error_message error)\<rparr>"

fun setResult :: "string \<Rightarrow> outcome \<Rightarrow> BatchResult" where
  "setResult k (Inr (SetResult v e)) =
     \<lparr>br_key = k, br_status = Created, br_version = Some v, br_error = None\<rparr>"
| "setResult k (Inr (IncrResult n v)) =
     \<lparr>br_key = k, br_status = Created, br_version = Some v, br_error = None\<rparr>"
| "setResult k (Inr (BoolResult b)) =
     \<lparr>br_key = k, br_status = Created, br_version = None, br_error = None\<rparr>"
| "setResult k (Inl error) =
     \<lparr>br_key = k, br_status = Failed, br_version = None, br_error = Some (error_message error)\<rparr>"

text \<open>
  The answer of a batch call: \<open>None\<close> when \<open>Promise.all\<close> is left pending, \<open>Inl\<close> when
  the call is refused, \<open>Inr\<close> the sorted results.
\<close>

definition batchDelete ::
  "CacheStore \<Rightarrow> int \<Rightarrow> (nat \<Rightarrow> string) \<Rightarrow> string list \<Rightarrow>
   (thrown + BatchResult list) option \<times> CacheStore" where
  "batchDelete st now mint ks =
     (case checkBackpressure st of
        Some err \<Rightarrow> (Some (Inl err), st)
      | None \<Rightarrow>
          if ks \<noteq> [] \<and> numShards st \<le> 0
          then (Some (Inl (plain_error ''Number of shards must be positive'')), st)
          else
            let issued = issue_order
                           (groupByShard (\<lambda>k. nat (uint (foldl hash_step 0 k) mod numShards st))
                              ks []);
                (admitted, st1) = issueDeletes st now mint 0 issued;
                (replies, st2) = drainAll st1 now mint;
                outcomes = map (\<lambda>(c, r). settle replies c r) (zip [0..<length issued] admitted)
            in (case those outcomes of
                  None \<Rightarrow> (None, st2)
                | Some os \<Rightarrow>
                    (Some (Inr (sortResults ks
                                  (map (\<lambda>((i, k), oc). deleteResult k oc) (zip issued os)))),
                     st2)))"

definition batchSet ::
  "CacheStore \<Rightarrow> int \<Rightarrow> (nat \<Rightarrow> string) \<Rightarrow> BatchSetItem list \<Rightarrow>
   (thrown + BatchResult list) option \<times> CacheStore" where
  "batchSet st now mint items =
     (case checkBackpressure st of
        Some err \<Rightarrow> (Some (Inl err), st)
      | None \<Rightarrow>
          if items \<noteq> [] \<and> numShards st \<le> 0
          then (Some (Inl (plain_error ''Number of shards must be positive'')), st)
          else
            let issued = issue_order
                           (groupByShard
                              (\<lambda>item. nat (uint (foldl hash_step 0 (item_key item)) mod numShards st))
                              items []);
                (admitted, st1) = issueSets st now mint 0 issued;
                (replies, st2) = drainAll st1 now mint;
                outcomes = map (\<lambda>(c, r). settle replies c r) (zip [0..<length issued] admitted)
            in (case those outcomes of
                  None \<Rightarrow> (None, st2)
                | Some os \<Rightarrow>
                    (Some (Inr (sortResults (map item_key items)
                                  (map (\<lambda>((i, item), oc). setResult (item_key item) oc)
                                     (zip issued os)))),
                     st2)))"

subsection \<open>Routes \<open>PUT\<close> and \<open>DELETE /v1/kv/:key\<close>\<close>

text \<open>
  The two handlers, without metrics and tracing, with the clock read once per request.
  A failed \<open>parse\<close> throws a \<open>ZodError\<close>; every thrown error goes to \<open>errorHandler\<close>.
  \<open>payloadSize\<close> is \<open>JSON.stringify(body).length\<close>.
\<close>

definition zod_error :: thrown where
  "zod_error =
     OtherError \<lparr>err_name = ''ZodError'', err_message = ''Invalid input'', err_statusCode = None,
                 err_retryAfter = None, err_hasBody = False\<rparr>"

text \<open>
  \<open>SetRequestSchema\<close>: the value is text, a number, a boolean, an object or an array
  (a number that is not finite reaches the handler only as an infinity, which
  \<open>z.number()\<close> lets pass), and \<open>ttlSec\<close> is optional.
\<close>

fun SetRequestSchema :: "JsValue \<Rightarrow> int option \<Rightarrow> bool" where
  "SetRequestSchema JNull ttlSec = False"
| "SetRequestSchema JUndefined ttlSec = False"
| "SetRequestSchema v None = True"
| "SetRequestSchema v (Some ttl) = TTLSchema ttl"

definition putRoute ::
  "CacheStore \<Rightarrow> int \<Rightarrow> int \<Rightarrow> (nat \<Rightarrow> string) \<Rightarrow> nat \<Rightarrow> string \<Rightarrow> JsValue \<Rightarrow> int option \<Rightarrow>
   int \<Rightarrow> string option \<Rightarrow> string option \<Rightarrow> HttpResponse option \<times> CacheStore" where
  "putRoute st maxItem now mint caller k v ttlSec payloadSize ifMatchHeader ifNoneMatchHeader =
     (if \<not> KeySchema k then (Some (errorHandler zod_error), st)
      else if \<not> SetRequestSchema v ttlSec then (Some (errorHandler zod_error), st)
      else if payloadSize > maxItem
      then (Some (errorHandler
                    (PayloadTooLargeError
                       (''Payload size '' @ show_int payloadSize @ '' exceeds limit ''
                        @ show_int maxItem))), st)
      else if truthy_str ifMatchHeader \<and> \<not> VersionSchema (the ifMatchHeader)
      then (Some (errorHandler (BadRequestError ''Invalid If-Match header format'')), st)
      else
        (case store_get st now k of
           (Inl err, st1) \<Rightarrow> (Some (errorHandler err), st1)
         | (Inr existingEntry, st1) \<Rightarrow>
             (case store_set st1 now mint caller k v ttlSec ifMatchHeader
                     (ifNoneMatchHeader = Some ''*'') of
                (None, st2) \<Rightarrow> (None, st2)
              | (Some (Inl err), st2) \<Rightarrow> (Some (errorHandler err), st2)
              | (Some (Inr result), st2) \<Rightarrow>
                  (case store_get st2 now k of
                     (Inl err, st3) \<Rightarrow> (Some (errorHandler err), st3)
                   | (Inr entry, st3) \<Rightarrow>
                       (Some \<lparr>status = (if existingEntry = None then 201 else 200),
                              headers = [],
                              body = (case result of
                                        SetResult ver ex \<Rightarrow> VersionBody ver ex
                                      | IncrResult n ver \<Rightarrow> VersionBody ver None
                                      | BoolResult b \<Rightarrow> NoBody)\<rparr>,
                        st3)))))"

definition deleteRoute ::
  "CacheStore \<Rightarrow> int \<Rightarrow> (nat \<Rightarrow> string) \<Rightarrow> nat \<Rightarrow> string \<Rightarrow> string option \<Rightarrow>
   HttpResponse option \<times> CacheStore" where
  "deleteRoute st now mint caller k ifMatchHeader =
     (if \<not> KeySchema k then (Some (errorHandler zod_error), st)
      else if truthy_str ifMatchHeader \<and> \<not> VersionSchema (the ifMatchHeader)
      then (Some (errorHandler (BadRequestError ''Invalid If-Match header format'')), st)
      else
        (case store_delete st now mint caller k ifMatchHeader of
           (None, st1) \<Rightarrow> (None, st1)
         | (Some (Inl err), st1) \<Rightarrow> (Some (errorHandler err), st1)
         | (Some (Inr deleted), st1) \<Rightarrow>
             if deleted \<noteq> BoolResult False
             then (Some \<lparr>status = 204, headers = [], body = NoBody\<rparr>, st1)
             else (Some (errorHandler
                           (NotFoundError (''Key '' @ [CHR 0x27] @ k @ [CHR 0x27] @ '' not found''))),
                   st1)))"


section \<open>Reachable states and the vocabulary of the properties\<close>

text \<open>
  \<open>expired e now\<close>: the entry has an \<open>expiresAt\<close> and the wall clock has reached it.
  \<open>effectively_present\<close>: the key holds an entry that is not expired.
\<close>

definition expired :: "CacheEntry \<Rightarrow> int \<Rightarrow> bool" where
  "expired e now = (case expiresAt e of None \<Rightarrow> False | Some t \<Rightarrow> t \<le> now)"

definition effectively_present :: "ShardState \<Rightarrow> string \<Rightarrow> int \<Rightarrow> bool" where
  "effectively_present s k now =
     (case map_of (entries s) k of None \<Rightarrow> False | Some e \<Rightarrow> \<not> expired e now)"

definition valid_ttl :: "int option \<Rightarrow> bool" where
  "valid_ttl ttlSec = (case ttlSec of None \<Rightarrow> True | Some ttl \<Rightarrow> TTLSchema ttl)"

text \<open>
  The states of a shard: a new shard, and whatever its public methods, the resumption
  of its dispatcher and its sweeper make of a state.  Writes happen at a positive
  reading of the clock (milliseconds since 1970) with a TTL that passed \<open>TTLSchema\<close>.
\<close>

inductive reachable :: "ShardState \<Rightarrow> bool" where
  r_new: "reachable (new_shard sid maxItem budget maxMailbox)"
| r_get: "reachable s \<Longrightarrow> reachable (snd (get s now k))"
| r_set: "reachable s \<Longrightarrow> 0 < now \<Longrightarrow> valid_ttl ttlSec \<Longrightarrow>
          reachable (snd (shard_set s now mint caller k v ttlSec ifM ifNM))"
| r_delete: "reachable s \<Longrightarrow> reachable (snd (shard_delete s now mint caller k ifM))"
| r_increment: "reachable s \<Longrightarrow> reachable (snd (shard_increment s now mint caller k delta))"
| r_resume: "reachable s \<Longrightarrow> reachable (snd (resume s now mint))"
| r_sweep: "reachable s \<Longrightarrow> reachable (processExpirations s now mint caller)"

text \<open>
  What holds of every reachable state (shown below): no entry, stored or queued, has
  \<open>expiresAt = 0\<close> or a negative size, and the LRU is well formed.
\<close>

definition stamp_ok :: "CacheEntry \<Rightarrow> bool" where
  "stamp_ok e = (expiresAt e \<noteq> Some 0 \<and> 0 \<le> sizeBytes e)"

fun payload_ok :: "OpPayload \<Rightarrow> bool" where
  "payload_ok (Entry e) = stamp_ok e"
| "payload_ok p = True"

definition shard_ok :: "ShardState \<Rightarrow> bool" where
  "shard_ok s =
     (list_all (\<lambda>(k, e). stamp_ok e) (entries s) \<and>
      list_all (\<lambda>operation. payload_ok (op_entry operation)) (operationQueue s) \<and>
      lru_inv (lru s))"

text \<open>
  The accounting invariant of a shard: the sizes of the indexed entries add up to the
  byte total of the LRU, and there are as many entries as the LRU counts.
\<close>

definition accounting_ok :: "ShardState \<Rightarrow> bool" where
  "accounting_ok s =
     (sum_list (map (\<lambda>(k, e). sizeBytes e) (entries s)) = currentSizeBytes (lru s) \<and>
      int (length (entries s)) = lru_size (lru s))"

text \<open>
  \<open>Number.isSafeInteger\<close>: where two numbers and their sum are safe integers, the
  double sum of the source is the integer sum of the model.
\<close>

definition safe_integer :: "int \<Rightarrow> bool" where
  "safe_integer n = (\<bar>n\<bar> \<le> 2 ^ 53 - 1)"

text \<open>
  The keys that the results of a batch call reference, in the order of the results.
\<close>

definition result_keys :: "(thrown + BatchResult list) option \<Rightarrow> string list option" where
  "result_keys answer =
     (case answer of Some (Inr results) \<Rightarrow> Some (map br_key results) | _ \<Rightarrow> None)"


section \<open>Example states\<close>

text \<open>
  An LRU with room for ten entries and fifty bytes, after \<open>key1\<close>, \<open>key2\<close> and \<open>key3\<close>
  of fifteen bytes each were set in that order.
\<close>

definition lru_three :: "string SizeAwareLRU" where
  "lru_three =
     \<lparr>capacity = Finite 10, maxSizeBytes = Finite 50, currentSizeBytes = 45, lru_size = 3,
      nodes = [\<lparr>nkey = ''key3'', nvalue = ''value3'', nsizeBytes = 15\<rparr>,
               \<lparr>nkey = ''key2'', nvalue = ''value2'', nsizeBytes = 15\<rparr>,
               \<lparr>nkey = ''key1'', nvalue = ''value1'', nsizeBytes = 15\<rparr>]\<rparr>"

definition lru_three_after :: "string SizeAwareLRU" where
  "lru_three_after =
     \<lparr>capacity = Finite 10, maxSizeBytes = Finite 50, currentSizeBytes = 45, lru_size = 2,
      nodes = [\<lparr>nkey = ''key4'', nvalue = ''value4'', nsizeBytes = 30\<rparr>,
               \<lparr>nkey = ''key3'', nvalue = ''value3'', nsizeBytes = 15\<rparr>]\<rparr>"

text \<open>\<open>mint_ex\<close> mints the version \<open>ulid\<close>\<^emph>\<open>c\<close> for the operation of caller \<^emph>\<open>c\<close>.\<close>

definition mint_ex :: "nat \<Rightarrow> string" where
  "mint_ex c = ''ulid'' @ show_nat c"

text \<open>
  A shard of 1024-byte items without memory budget, after
  \<open>set('t', 'x', ttlSec = 1)\<close> at clock reading 1000: the entry expires at 2000.
\<close>

definition entry_t :: CacheEntry where
  "entry_t =
     \<lparr>key = ''t'', cvalue = VString ''x'', version = ''ulid0'', createdAt = 1000,
      updatedAt = 1000, expiresAt = Some 2000, sizeBytes = 1\<rparr>"

definition shard_ttl :: ShardState where
  "shard_ttl =
     \<lparr>shardId = 0, entries = [(''t'', entry_t)],
      lru = \<lparr>capacity = Infinity, maxSizeBytes = Infinity, currentSizeBytes = 1, lru_size = 1,
             nodes = [\<lparr>nkey = ''t'', nvalue = ''t'', nsizeBytes = 1\<rparr>]\<rparr>,
      ttlHeap = [\<lparr>hkey = ''t'', hexpiresAt = 2000, hshard = 0\<rparr>],
      operationQueue = [], maxItemBytes = 1024, maxMailboxSize = 1000, isProcessing = True,
      stats = new_stats\<lparr>sets := 1\<rparr>,
      awaiting = Some (0, Inr (SetResult ''ulid0'' (Some 2000)))\<rparr>"

text \<open>
  A write of \<open>'updated'\<close> to the key \<open>t\<close> with the two conditional headers as given.
\<close>

definition entry_update :: CacheEntry where
  "entry_update =
     \<lparr>key = ''t'', cvalue = VString ''updated'', version = [], createdAt = 1500,
      updatedAt = 1500, expiresAt = None, sizeBytes = 7\<rparr>"

definition op_put :: "string option \<Rightarrow> bool \<Rightarrow> ShardOperation" where
  "op_put ifM ifNM =
     \<lparr>op_type = OpSet, op_key = ''t'', op_entry = Entry entry_update, ifMatch = ifM,
      ifNoneMatch = ifNM, op_id = 1\<rparr>"

text \<open>
  The same shard once its dispatcher is idle again, and a store of that one shard.
\<close>

definition shard_ttl_idle :: ShardState where
  "shard_ttl_idle = shard_ttl\<lparr>isProcessing := False, awaiting := None\<rparr>"

definition store_ttl :: CacheStore where
  "store_ttl = \<lparr>shards = [shard_ttl_idle], maxInflight = 1000, currentInflight = 0\<rparr>"

definition op_delete :: "nat \<Rightarrow> string \<Rightarrow> ShardOperation" where
  "op_delete caller k =
     \<lparr>op_type = OpDelete, op_key = k, op_entry = NoEntry, ifMatch = None, ifNoneMatch = False,
      op_id = caller\<rparr>"

text \<open>
  A shard with a mailbox of one place after two deletes were handed to it in one turn:
  the first was executed at once and its result is held across the \<open>await\<close>, the
  second fills the mailbox.
\<close>

definition shard_full :: ShardState where
  "shard_full =
     (new_shard 0 1024 None 1)
       \<lparr>operationQueue := [op_delete 2 ''b''], isProcessing := True,
        awaiting := Some (1, Inr (BoolResult False))\<rparr>"

text \<open>
  The idle shard after the key \<open>t\<close> was written again at clock reading 1500, once with
  a TTL of 100 seconds and once without TTL.  The heap record of the first write
  (\<open>t\<close>, 2000) is still in the heap.
\<close>

definition entry_t_extended :: CacheEntry where
  "entry_t_extended =
     \<lparr>key = ''t'', cvalue = VString ''y'', version = ''ulid1'', createdAt = 1000,
      updatedAt = 1500, expiresAt = Some 101500, sizeBytes = 1\<rparr>"

definition shard_extended :: ShardState where
  "shard_extended =
     shard_ttl_idle
       \<lparr>entries := [(''t'', entry_t_extended)],
        ttlHeap := [\<lparr>hkey = ''t'', hexpiresAt = 2000, hshard = 0\<rparr>,
                    \<lparr>hkey = ''t'', hexpiresAt = 101500, hshard = 0\<rparr>],
        stats := new_stats\<lparr>sets := 2\<rparr>\<rparr>"

definition entry_t_untimed :: CacheEntry where
  "entry_t_untimed =
     \<lparr>key = ''t'', cvalue = VString ''y'', version = ''ulid1'', createdAt = 1000,
      updatedAt = 1500, expiresAt = None, sizeBytes = 1\<rparr>"

definition shard_untimed :: ShardState where
  "shard_untimed =
     shard_ttl_idle
       \<lparr>entries := [(''t'', entry_t_untimed)], stats := new_stats\<lparr>sets := 2\<rparr>\<rparr>"

text \<open>
  A shard with a memory budget of ten bytes, idle after \<open>set('a', 1)\<close> at clock
  reading 1000: the number takes eight bytes.
\<close>

definition entry_a :: CacheEntry where
  "entry_a =
     \<lparr>key = ''a'', cvalue = VNumber 1, version = ''ulid0'', createdAt = 1000,
      updatedAt = 1000, expiresAt = None, sizeBytes = 8\<rparr>"

definition entry_b :: CacheEntry where
  "entry_b =
     \<lparr>key = ''b'', cvalue = VNumber 1, version = ''ulid1'', createdAt = 1100,
      updatedAt = 1100, expiresAt = None, sizeBytes = 8\<rparr>"

definition shard_budget :: ShardState where
  "shard_budget =
     (new_shard 0 1024 (Some 10) 1000)
       \<lparr>entries := [(''a'', entry_a)],
        lru := \<lparr>capacity = Infinity, maxSizeBytes = Finite 10, currentSizeBytes = 8, lru_size = 1,
                nodes = [\<lparr>nkey = ''a'', nvalue = ''a'', nsizeBytes = 8\<rparr>]\<rparr>,
        stats := new_stats\<lparr>sets := 1\<rparr>\<rparr>"

text \<open>A batch of three items of which the first and the last have the same key.\<close>

definition items_aba :: "BatchSetItem list" where
  "items_aba =
     [\<lparr>item_key = ''a'', item_value = JString ''first'', item_ttlSec = None\<rparr>,
      \<lparr>item_key = ''b'', item_value = JString ''other'', item_ttlSec = None\<rparr>,
      \<lparr>item_key = ''a'', item_value = JString ''second'', item_ttlSec = None\<rparr>]"

text \<open>
  A shard after \<open>set('c', 5, ttlSec = 1)\<close> at clock reading 1000: a counter that
  expires at 2000.
\<close>

definition entry_c :: CacheEntry where
  "entry_c =
     \<lparr>key = ''c'', cvalue = VNumber 5, version = ''ulid0'', createdAt = 1000,
      updatedAt = 1000, expiresAt = Some 2000, sizeBytes = 8\<rparr>"

definition shard_counter :: ShardState where
  "shard_counter =
     \<lparr>shardId = 0, entries = [(''c'', entry_c)],
      lru = \<lparr>capacity = Infinity, maxSizeBytes = Infinity, currentSizeBytes = 8, lru_size = 1,
             nodes = [\<lparr>nkey = ''c'', nvalue = ''c'', nsizeBytes = 8\<rparr>]\<rparr>,
      ttlHeap = [\<lparr>hkey = ''c'', hexpiresAt = 2000, hshard = 0\<rparr>],
      operationQueue = [], maxItemBytes = 1024, maxMailboxSize = 1000, isProcessing = True,
      stats = new_stats\<lparr>sets := 1\<rparr>,
      awaiting = Some (0, Inr (SetResult ''ulid0'' (Some 2000)))\<rparr>"

text \<open>
  The same shard once its dispatcher is idle again, a store of that one shard, and the
  shard after \<open>increment('c', 3)\<close> at clock reading 2200: the counter is stored anew
  without \<open>expiresAt\<close>, and the heap record of the first write (\<open>c\<close>, 2000) is still in
  the heap.
\<close>

definition shard_counter_idle :: ShardState where
  "shard_counter_idle = shard_counter\<lparr>isProcessing := False, awaiting := None\<rparr>"

definition store_counter :: CacheStore where
  "store_counter = \<lparr>shards = [shard_counter_idle], maxInflight = 1000, currentInflight = 0\<rparr>"

definition entry_c_resurrected :: CacheEntry where
  "entry_c_resurrected =
     \<lparr>key = ''c'', cvalue = VNumber 8, version = ''ulid1'', createdAt = 1000,
      updatedAt = 2200, expiresAt = None, sizeBytes = 8\<rparr>"

definition shard_resurrected :: ShardState where
  "shard_resurrected =
     shard_counter_idle
       \<lparr>entries := [(''c'', entry_c_resurrected)], stats := new_stats\<lparr>sets := 2\<rparr>\<rparr>"


definition op_set :: "string \<Rightarrow> CacheEntry \<Rightarrow> ShardOperation" where
  "op_set k entry =
     \<lparr>op_type = OpSet, op_key = k, op_entry = Entry entry, ifMatch = None, ifNoneMatch = False,
      op_id = 0\<rparr>"


section \<open>The eviction loop of the LRU\<close>

lemma shrink_all: "lru_counts l \<Longrightarrow> shrink l (length (nodes l)) = l"
  by (simp add: shrink_def lru_counts_def)

lemma shrink_empty: "lru_counts l \<Longrightarrow> nodes l = [] \<Longrightarrow> shrink l 0 = l"
  by (simp add: shrink_def lru_counts_def)

lemma shrink_counts: "lru_counts (shrink l m) = (m \<le> length (nodes l))"
  by (simp add: shrink_def lru_counts_def min_def)

lemma shrink_shrink: "m \<le> n \<Longrightarrow> shrink (shrink l n) m = shrink l m"
  by (simp add: shrink_def min_def)

lemma over_shrink [simp]: "over (shrink l n) ns = over l ns"
  by (simp add: over_def shrink_def)

lemma sum_list_butlast:
  "xs \<noteq> [] \<Longrightarrow>
   sum_list (map f xs) = sum_list (map f (butlast xs)) + (f (last xs) :: int)"
  by (induction xs) auto

lemma drop_butlast_last:
  "xs \<noteq> [] \<Longrightarrow> m \<le> length (butlast xs) \<Longrightarrow> drop m xs = drop m (butlast xs) @ [last xs]"
proof -
  assume ne: "xs \<noteq> []" and m: "m \<le> length (butlast xs)"
  have "drop m (butlast xs @ [last xs]) = drop m (butlast xs) @ [last xs]"
    using m by simp
  then show ?thesis using ne by simp
qed

lemma evictLRU_nonempty:
  assumes c: "lru_counts l" and ne: "nodes l \<noteq> []"
  shows "evictLRU l = (Some (nvalue (last (nodes l))), shrink l (length (nodes l) - 1))"
proof -
  have e1: "take (length (nodes l) - 1) (nodes l) = butlast (nodes l)"
    by (simp add: butlast_conv_take)
  have e2: "int (length (nodes l) - 1) = lru_size l - 1"
    using c ne by (cases "nodes l") (simp_all add: lru_counts_def)
  have "currentSizeBytes l =
        sum_list (map nsizeBytes (butlast (nodes l))) + nsizeBytes (last (nodes l))"
    using c sum_list_butlast[OF ne, of nsizeBytes] by (simp only: lru_counts_def)
  then have e3: "sum_list (map nsizeBytes (butlast (nodes l))) =
        currentSizeBytes l - nsizeBytes (last (nodes l))"
    by simp
  have "shrink l (length (nodes l) - 1) =
        l\<lparr>nodes := butlast (nodes l), lru_size := lru_size l - 1,
          currentSizeBytes := currentSizeBytes l - nsizeBytes (last (nodes l))\<rparr>"
    unfolding shrink_def e1 e2 e3 ..
  then show ?thesis
    using ne by (simp add: evictLRU_def Let_def)
qed

lemma evictLoop_char:
  "lru_counts l \<Longrightarrow>
   \<exists>m\<le>length (nodes l).
     evictLoop l ev = (ev @ map nvalue (rev (drop m (nodes l))), shrink l m) \<and>
     (m = 0 \<or> \<not> over l (take m (nodes l))) \<and>
     (\<forall>j. m < j \<and> j \<le> length (nodes l) \<longrightarrow> over l (take j (nodes l)))"
proof (induction l ev rule: evictLoop.induct)
  case (1 l evicted)
  let ?ns = "nodes l"
  let ?cond = "exceeds (lru_size l) (capacity l) \<or> exceeds (currentSizeBytes l) (maxSizeBytes l)"
  have cond_over: "?cond = over l ?ns"
    using "1.prems" by (simp add: over_def lru_counts_def)
  show ?case
  proof (cases ?cond)
    case False
    then have "evictLoop l evicted = (evicted, l)"
      by (subst evictLoop.simps) simp
    with False cond_over "1.prems" show ?thesis
      by (intro exI[of _ "length ?ns"]) (simp add: shrink_all)
  next
    case True
    show ?thesis
    proof (cases "?ns = []")
      case True
      with \<open>?cond\<close> have "evictLoop l evicted = (evicted, l)"
        by (subst evictLoop.simps) (simp add: evictLRU_def)
      with True "1.prems" show ?thesis
        by (intro exI[of _ 0]) (simp add: shrink_empty)
    next
      case False
      let ?n = "length ?ns - 1"
      let ?v = "nvalue (last ?ns)"
      have ev: "evictLRU l = (Some ?v, shrink l ?n)"
        using "1.prems" False by (rule evictLRU_nonempty)
      have step: "evictLoop l evicted = evictLoop (shrink l ?n) (evicted @ [?v])"
        using \<open>?cond\<close> ev by (subst evictLoop.simps) simp
      have c': "lru_counts (shrink l ?n)" by (simp add: shrink_counts)
      have nodes': "nodes (shrink l ?n) = butlast ?ns"
        by (simp add: shrink_def butlast_conv_take)
      have "\<exists>m\<le>length (nodes (shrink l ?n)).
          evictLoop (shrink l ?n) (evicted @ [?v]) =
            ((evicted @ [?v]) @ map nvalue (rev (drop m (nodes (shrink l ?n)))), shrink (shrink l ?n) m) \<and>
          (m = 0 \<or> \<not> over (shrink l ?n) (take m (nodes (shrink l ?n)))) \<and>
          (\<forall>j. m < j \<and> j \<le> length (nodes (shrink l ?n)) \<longrightarrow>
               over (shrink l ?n) (take j (nodes (shrink l ?n))))"
        by (rule "1.IH"[OF \<open>?cond\<close> ev[symmetric] refl c'])
      then obtain m where m: "m \<le> length (butlast ?ns)"
        and run: "evictLoop (shrink l ?n) (evicted @ [?v]) =
                   ((evicted @ [?v]) @ map nvalue (rev (drop m (butlast ?ns))), shrink (shrink l ?n) m)"
        and stop: "m = 0 \<or> \<not> over l (take m (butlast ?ns))"
        and need: "\<forall>j. m < j \<and> j \<le> length (butlast ?ns) \<longrightarrow> over l (take j (butlast ?ns))"
        unfolding nodes' over_shrink by (elim exE conjE)
      have mle: "m \<le> ?n" using m by simp
      have split: "drop m ?ns = drop m (butlast ?ns) @ [last ?ns]"
        using False m by (rule_tac drop_butlast_last)
      have tk: "\<And>j. j \<le> ?n \<Longrightarrow> take j (butlast ?ns) = take j ?ns"
        by (simp add: butlast_conv_take min_def)
      have "evictLoop l evicted = (evicted @ map nvalue (rev (drop m ?ns)), shrink l m)"
        using step run split mle by (simp add: shrink_shrink)
      moreover have "m = 0 \<or> \<not> over l (take m ?ns)"
        using stop tk[OF mle] by simp
      moreover have "\<forall>j. m < j \<and> j \<le> length ?ns \<longrightarrow> over l (take j ?ns)"
      proof (intro allI impI)
        fix j assume j: "m < j \<and> j \<le> length ?ns"
        show "over l (take j ?ns)"
        proof (cases "j = length ?ns")
          case True
          then show ?thesis using \<open>?cond\<close> cond_over by simp
        next
          case False
          with j have "j \<le> ?n" by arith
          moreover from \<open>j \<le> ?n\<close> have "j \<le> length (butlast ?ns)" by simp
          ultimately have "over l (take j (butlast ?ns))" using need j by blast
          then show ?thesis using tk[OF \<open>j \<le> ?n\<close>] by simp
        qed
      qed
      moreover have "m \<le> length ?ns" using mle by simp
      ultimately show ?thesis by (intro exI[of _ m] conjI)
    qed
  qed
qed

lemma removeNode_absent: "find (\<lambda>n. nkey n = k) ns = None \<Longrightarrow> removeNode k ns = ns"
  by (induction ns) (auto split: if_splits)

lemma removeNode_present:
  "find (\<lambda>n. nkey n = k) ns = Some e \<Longrightarrow>
   nkey e = k \<and> Suc (length (removeNode k ns)) = length ns \<and>
   sum_list (map nsizeBytes (removeNode k ns)) = sum_list (map nsizeBytes ns) - nsizeBytes e"
  by (induction ns) (auto split: if_splits)
lemma removeNode_subset: "set (removeNode k ns) \<subseteq> set ns"
  by (induction ns) auto

lemma removeNode_distinct:
  "distinct (map nkey ns) \<Longrightarrow> distinct (map nkey (removeNode k ns)) \<and> k \<notin> nkey ` set (removeNode k ns)"
  using removeNode_subset[of k]
  by (induction ns) (auto split: if_splits)

lemma lru_set_unfold:
  "lru_set l k v sz =
     evictLoop (l\<lparr>nodes := inserted l k v sz,
                  lru_size := (if cache_get l k = None then lru_size l + 1 else lru_size l),
                  currentSizeBytes := currentSizeBytes l - old_size l k + sz\<rparr>) []"
proof (cases "cache_get l k")
  case None
  then have rn: "removeNode k (nodes l) = nodes l"
    unfolding cache_get_def by (rule removeNode_absent)
  show ?thesis
    unfolding lru_set_def Let_def inserted_def old_size_def addToFront_def None rn
    by simp
next
  case (Some e)
  then have ke: "nkey e = k"
    unfolding cache_get_def using removeNode_present[of k "nodes l" e] by blast
  have eq: "e\<lparr>nvalue := v, nsizeBytes := sz\<rparr> = \<lparr>nkey = k, nvalue = v, nsizeBytes = sz\<rparr>"
    using ke by (cases e) simp
  show ?thesis
    unfolding lru_set_def Let_def inserted_def old_size_def addToFront_def moveToFront_def Some
    by (cases l) (simp add: ke eq)
qed

lemma exceeds_mono: "exceeds x lim \<Longrightarrow> x \<le> y \<Longrightarrow> exceeds y lim"
  by (cases lim) auto

lemma exceeds_zero: "limit_nonneg lim \<Longrightarrow> \<not> exceeds 0 lim"
  by (cases lim) auto

lemma sum_list_nonneg_all:
  "list_all (\<lambda>n. 0 \<le> nsizeBytes n) ns \<Longrightarrow> 0 \<le> sum_list (map nsizeBytes ns)"
  by (induction ns) auto

lemma list_all_removeNode:
  "list_all P ns \<Longrightarrow> list_all P (removeNode k ns)"
  by (induction ns) auto

lemma inserted_counts:
  assumes "lru_counts l"
  shows "int (length (inserted l k v sz)) = (if cache_get l k = None then lru_size l + 1 else lru_size l)"
    and "sum_list (map nsizeBytes (inserted l k v sz)) = currentSizeBytes l - old_size l k + sz"
proof -
  show "int (length (inserted l k v sz)) = (if cache_get l k = None then lru_size l + 1 else lru_size l)"
  proof (cases "cache_get l k")
    case None
    then have "removeNode k (nodes l) = nodes l"
      unfolding cache_get_def by (rule removeNode_absent)
    with None assms show ?thesis by (simp add: inserted_def lru_counts_def)
  next
    case (Some e)
    then have "Suc (length (removeNode k (nodes l))) = length (nodes l)"
      unfolding cache_get_def using removeNode_present[of k "nodes l" e] by blast
    with Some assms show ?thesis by (simp add: inserted_def lru_counts_def)
  qed
  show "sum_list (map nsizeBytes (inserted l k v sz)) = currentSizeBytes l - old_size l k + sz"
  proof (cases "cache_get l k")
    case None
    then have "removeNode k (nodes l) = nodes l"
      unfolding cache_get_def by (rule removeNode_absent)
    with None assms show ?thesis by (simp add: inserted_def lru_counts_def old_size_def)
  next
    case (Some e)
    then have "sum_list (map nsizeBytes (removeNode k (nodes l))) =
               sum_list (map nsizeBytes (nodes l)) - nsizeBytes e"
      unfolding cache_get_def using removeNode_present[of k "nodes l" e] by blast
    with Some assms show ?thesis by (simp add: inserted_def lru_counts_def old_size_def)
  qed
qed

lemma sum_list_take_drop:
  "sum_list (map f (take m xs)) = sum_list (map f xs) - (sum_list (map f (drop m xs)) :: int)"
proof -
  have "sum_list (map f (take m xs @ drop m xs)) =
        sum_list (map f (take m xs)) + sum_list (map f (drop m xs))"
    by (simp only: map_append sum_list.append)
  then show ?thesis by simp
qed

text \<open>
  Claim C5.  For a put on a well-formed LRU with non-negative limits: the written node is
  at the head of the list \<open>inserted\<close> and the byte total before the loop is the old
  total minus the old size of the key plus the new size.  The loop then detaches tail
  nodes: the survivors are the first \<open>m\<close> nodes, the victims are the others, emitted
  tail first, and each of them was detached while a limit was exceeded.  The written
  node is at the head of what remains and is a victim only when nothing remains
  (\<open>m = 0\<close>), which is what happens when its size alone exceeds \<open>maxSizeBytes\<close>.  On
  return neither limit is exceeded and the counters agree with the list.
\<close>

theorem lru_set_eviction_postcondition:
  assumes inv: "lru_inv l" and sz: "0 \<le> sz"
    and cap: "limit_nonneg (capacity l)" and mb: "limit_nonneg (maxSizeBytes l)"
    and res: "lru_set l k v sz = (evicted, l')"
  shows "\<exists>m\<le>length (inserted l k v sz).
      nodes l' = take m (inserted l k v sz) \<and>
      evicted = map nvalue (rev (drop m (inserted l k v sz))) \<and>
      (\<forall>j. m < j \<and> j \<le> length (inserted l k v sz) \<longrightarrow> over l (take j (inserted l k v sz))) \<and>
      lru_size l' = int m \<and>
      currentSizeBytes l' =
        currentSizeBytes l - old_size l k + sz
          - sum_list (map nsizeBytes (drop m (inserted l k v sz))) \<and>
      (0 < m \<longrightarrow> hd (nodes l') = \<lparr>nkey = k, nvalue = v, nsizeBytes = sz\<rparr> \<and>
                 k \<notin> nkey ` set (drop m (inserted l k v sz))) \<and>
      (exceeds sz (maxSizeBytes l) \<longrightarrow> m = 0) \<and>
      \<not> exceeds (lru_size l') (capacity l') \<and>
      \<not> exceeds (currentSizeBytes l') (maxSizeBytes l') \<and>
      lru_inv l'"
proof -
  let ?ins = "inserted l k v sz"
  let ?l1 = "l\<lparr>nodes := ?ins,
               lru_size := (if cache_get l k = None then lru_size l + 1 else lru_size l),
               currentSizeBytes := currentSizeBytes l - old_size l k + sz\<rparr>"
  from inv have counts: "lru_counts l" and dist: "distinct (map nkey (nodes l))"
    and nonneg: "list_all (\<lambda>n. 0 \<le> nsizeBytes n) (nodes l)"
    by (simp_all add: lru_inv_def)
  have counts1: "lru_counts ?l1"
    using inserted_counts[OF counts, of k v sz] by (simp add: lru_counts_def)
  have dist_ins: "distinct (map nkey ?ins)" and k_tail: "k \<notin> nkey ` set (removeNode k (nodes l))"
    using removeNode_distinct[OF dist, of k] by (auto simp: inserted_def)
  have nonneg_ins: "list_all (\<lambda>n. 0 \<le> nsizeBytes n) ?ins"
    using sz list_all_removeNode[OF nonneg, of k] by (simp add: inserted_def)
  from evictLoop_char[OF counts1, of "[]"]
  obtain m where m: "m \<le> length ?ins"
    and run: "evictLoop ?l1 [] = (map nvalue (rev (drop m ?ins)), shrink ?l1 m)"
    and stop: "m = 0 \<or> \<not> over ?l1 (take m ?ins)"
    and need: "\<forall>j. m < j \<and> j \<le> length ?ins \<longrightarrow> over ?l1 (take j ?ins)"
    by auto
  have over1: "\<And>ns. over ?l1 ns = over l ns" by (simp add: over_def)
  from res run have ev: "evicted = map nvalue (rev (drop m ?ins))" and l': "l' = shrink ?l1 m"
    by (simp_all add: lru_set_unfold)
  have n': "nodes l' = take m ?ins" and s': "lru_size l' = int m"
    and b': "currentSizeBytes l' = sum_list (map nsizeBytes (take m ?ins))"
    and c': "capacity l' = capacity l" and mb': "maxSizeBytes l' = maxSizeBytes l"
    by (simp_all add: l' shrink_def)
  have bytes: "currentSizeBytes l' =
        currentSizeBytes l - old_size l k + sz - sum_list (map nsizeBytes (drop m ?ins))"
    unfolding b' sum_list_take_drop[of nsizeBytes m ?ins]
    using inserted_counts(2)[OF counts, of k v sz] by simp
  have head: "0 < m \<longrightarrow> hd (nodes l') = \<lparr>nkey = k, nvalue = v, nsizeBytes = sz\<rparr> \<and>
                 k \<notin> nkey ` set (drop m ?ins)"
  proof
    assume "0 < m"
    then obtain m' where m': "m = Suc m'" by (cases m) auto
    have "set (drop m' (removeNode k (nodes l))) \<subseteq> set (removeNode k (nodes l))"
      by (rule set_drop_subset)
    with k_tail have "k \<notin> nkey ` set (drop m' (removeNode k (nodes l)))" by blast
    then show "hd (nodes l') = \<lparr>nkey = k, nvalue = v, nsizeBytes = sz\<rparr> \<and>
                 k \<notin> nkey ` set (drop m ?ins)"
      by (simp add: n' m' inserted_def)
  qed
  have self: "exceeds sz (maxSizeBytes l) \<longrightarrow> m = 0"
  proof (intro impI, rule ccontr)
    assume big: "exceeds sz (maxSizeBytes l)" and "m \<noteq> 0"
    then obtain m' where m': "m = Suc m'" by (cases m) auto
    have "list_all (\<lambda>n. 0 \<le> nsizeBytes n) (take m' (removeNode k (nodes l)))"
      using list_all_removeNode[OF nonneg, of k] by (simp add: list_all_iff) (meson in_set_takeD)
    then have "0 \<le> sum_list (map nsizeBytes (take m' (removeNode k (nodes l))))"
      by (rule sum_list_nonneg_all)
    then have "sz \<le> sum_list (map nsizeBytes (take m ?ins))"
      by (simp add: m' inserted_def)
    with big have "exceeds (sum_list (map nsizeBytes (take m ?ins))) (maxSizeBytes l)"
      by (rule exceeds_mono)
    then have "over l (take m ?ins)" by (simp add: over_def)
    with stop \<open>m \<noteq> 0\<close> over1 show False by simp
  qed
  have within: "\<not> exceeds (lru_size l') (capacity l') \<and> \<not> exceeds (currentSizeBytes l') (maxSizeBytes l')"
  proof (cases "m = 0")
    case True
    then show ?thesis using cap mb by (simp add: s' b' c' mb' exceeds_zero)
  next
    case False
    with stop over1 have "\<not> over l (take m ?ins)" by simp
    moreover have "length (take m ?ins) = m" using m by simp
    ultimately show ?thesis by (simp add: over_def s' b' c' mb' del: length_take)
  qed
  have inv': "lru_inv l'"
  proof -
    have "distinct (map nkey (take m ?ins))"
      using dist_ins by (simp add: take_map[symmetric] distinct_take del: take_map)
    moreover have "list_all (\<lambda>n. 0 \<le> nsizeBytes n) (take m ?ins)"
      using nonneg_ins by (simp add: list_all_iff) (meson in_set_takeD)
    moreover have "lru_counts l'" using m by (simp add: lru_counts_def n' s' b')
    ultimately show ?thesis by (simp add: lru_inv_def n')
  qed
  from need over1 have need': "\<forall>j. m < j \<and> j \<le> length ?ins \<longrightarrow> over l (take j ?ins)" by simp
  show ?thesis
    using m n' ev need' s' bytes head self conjunct1[OF within] conjunct2[OF within] inv'
    by (intro exI[of _ m] conjI) assumption+
qed

theorem lru_set_eviction_postcondition_witness:
  "lru_inv lru_three \<and> (0::int) \<le> 30 \<and> limit_nonneg (capacity lru_three) \<and>
   limit_nonneg (maxSizeBytes lru_three) \<and>
   lru_set lru_three ''key4'' ''value4'' 30 = ([''value1'', ''value2''], lru_three_after) \<and>
   (\<exists>m\<le>length (inserted lru_three ''key4'' ''value4'' 30).
      nodes lru_three_after = take m (inserted lru_three ''key4'' ''value4'' 30) \<and>
      [''value1'', ''value2''] =
        map nvalue (rev (drop m (inserted lru_three ''key4'' ''value4'' 30))) \<and>
      (\<forall>j. m < j \<and> j \<le> length (inserted lru_three ''key4'' ''value4'' 30) \<longrightarrow>
           over lru_three (take j (inserted lru_three ''key4'' ''value4'' 30))) \<and>
      lru_size lru_three_after = int m \<and>
      currentSizeBytes lru_three_after =
        currentSizeBytes lru_three - old_size lru_three ''key4'' + 30
          - sum_list (map nsizeBytes (drop m (inserted lru_three ''key4'' ''value4'' 30))) \<and>
      (0 < m \<longrightarrow>
         hd (nodes lru_three_after) = \<lparr>nkey = ''key4'', nvalue = ''value4'', nsizeBytes = 30\<rparr> \<and>
         ''key4'' \<notin> nkey ` set (drop m (inserted lru_three ''key4'' ''value4'' 30))) \<and>
      (exceeds 30 (maxSizeBytes lru_three) \<longrightarrow> m = 0) \<and>
      \<not> exceeds (lru_size lru_three_after) (capacity lru_three_after) \<and>
      \<not> exceeds (currentSizeBytes lru_three_after) (maxSizeBytes lru_three_after) \<and>
      lru_inv lru_three_after)"
proof -
  have h1: "lru_inv lru_three"
    by (simp add: lru_three_def lru_inv_def lru_counts_def)
  have h2: "(0::int) \<le> 30" by simp
  have h3: "limit_nonneg (capacity lru_three)" by (simp add: lru_three_def)
  have h4: "limit_nonneg (maxSizeBytes lru_three)" by (simp add: lru_three_def)
  have h5: "lru_set lru_three ''key4'' ''value4'' 30 = ([''value1'', ''value2''], lru_three_after)"
    by (simp add: lru_three_def lru_three_after_def lru_set_def cache_get_def addToFront_def
          evictLoop.simps evictLRU_def)
  show ?thesis
    using h1 h2 h3 h4 h5 lru_set_eviction_postcondition[OF h1 h2 h3 h4 h5]
    by (intro conjI) assumption+
qed

section \<open>Every reachable state is well formed\<close>

lemma lru_set_inv:
  assumes inv: "lru_inv l" and sz: "0 \<le> sz"
  shows "lru_inv (snd (lru_set l k v sz))"
proof -
  let ?ins = "inserted l k v sz"
  let ?l1 = "l\<lparr>nodes := ?ins,
               lru_size := (if cache_get l k = None then lru_size l + 1 else lru_size l),
               currentSizeBytes := currentSizeBytes l - old_size l k + sz\<rparr>"
  from inv have counts: "lru_counts l" and dist: "distinct (map nkey (nodes l))"
    and nonneg: "list_all (\<lambda>n. 0 \<le> nsizeBytes n) (nodes l)"
    by (simp_all add: lru_inv_def)
  have counts1: "lru_counts ?l1"
    using inserted_counts[OF counts, of k v sz] by (simp add: lru_counts_def)
  have dist_ins: "distinct (map nkey ?ins)"
    using removeNode_distinct[OF dist, of k] by (auto simp: inserted_def)
  have nonneg_ins: "list_all (\<lambda>n. 0 \<le> nsizeBytes n) ?ins"
    using sz list_all_removeNode[OF nonneg, of k] by (simp add: inserted_def)
  from evictLoop_char[OF counts1, of "[]"]
  obtain m where m: "m \<le> length ?ins"
    and run: "evictLoop ?l1 [] = (map nvalue (rev (drop m ?ins)), shrink ?l1 m)"
    by auto
  have l': "snd (lru_set l k v sz) = shrink ?l1 m"
    using run by (simp add: lru_set_unfold)
  have "distinct (map nkey (take m ?ins))"
    using dist_ins by (simp add: take_map[symmetric] distinct_take del: take_map)
  moreover have "list_all (\<lambda>n. 0 \<le> nsizeBytes n) (take m ?ins)"
    using nonneg_ins by (simp add: list_all_iff) (meson in_set_takeD)
  moreover have "lru_counts (shrink ?l1 m)" using m by (simp add: shrink_counts)
  ultimately show ?thesis by (simp add: lru_inv_def l' shrink_def)
qed

lemma lru_delete_inv: "lru_inv l \<Longrightarrow> lru_inv (snd (lru_delete l k))"
proof (cases "cache_get l k")
  case None
  assume "lru_inv l"
  with None show ?thesis by (simp add: lru_delete_def)
next
  case (Some e)
  assume inv: "lru_inv l"
  from Some have p: "Suc (length (removeNode k (nodes l))) = length (nodes l)"
      "sum_list (map nsizeBytes (removeNode k (nodes l))) = sum_list (map nsizeBytes (nodes l)) - nsizeBytes e"
    unfolding cache_get_def using removeNode_present[of k "nodes l" e] by blast+
  from inv have "distinct (map nkey (removeNode k (nodes l)))"
    using removeNode_distinct[of "nodes l" k] by (simp add: lru_inv_def)
  moreover from inv have "list_all (\<lambda>n. 0 \<le> nsizeBytes n) (removeNode k (nodes l))"
    by (simp add: lru_inv_def list_all_removeNode)
  moreover have "int (length (removeNode k (nodes l))) = int (length (nodes l)) - 1"
    using p(1) by arith
  ultimately show ?thesis
    using inv Some p(2) by (simp add: lru_delete_def lru_inv_def lru_counts_def)
qed

lemma lru_get_inv: "lru_inv l \<Longrightarrow> lru_inv (snd (lru_get l k))"
proof (cases "cache_get l k")
  case None
  assume "lru_inv l"
  with None show ?thesis by (simp add: lru_get_def)
next
  case (Some e)
  assume inv: "lru_inv l"
  from Some have p: "nkey e = k" "Suc (length (removeNode k (nodes l))) = length (nodes l)"
      "sum_list (map nsizeBytes (removeNode k (nodes l))) = sum_list (map nsizeBytes (nodes l)) - nsizeBytes e"
    unfolding cache_get_def using removeNode_present[of k "nodes l" e] by blast+
  from Some have mem: "e \<in> set (nodes l)"
    unfolding cache_get_def by (auto simp: find_Some_iff)
  from inv have "distinct (map nkey (removeNode k (nodes l)))" "k \<notin> nkey ` set (removeNode k (nodes l))"
    using removeNode_distinct[of "nodes l" k] by (simp_all add: lru_inv_def)
  moreover from inv have "list_all (\<lambda>n. 0 \<le> nsizeBytes n) (removeNode k (nodes l))"
    by (simp add: lru_inv_def list_all_removeNode)
  moreover from inv mem have "0 \<le> nsizeBytes e" by (simp add: lru_inv_def list_all_iff)
  moreover have "int (length (removeNode k (nodes l))) = int (length (nodes l)) - 1"
    using p(2) by arith
  ultimately show ?thesis
    using inv Some p(1,3)
    by (simp add: lru_get_def lru_inv_def lru_counts_def moveToFront_def addToFront_def)
qed

lemma alist_delete_all: "list_all P al \<Longrightarrow> list_all P (AList.delete k al)"
  by (simp add: AList.delete_eq list_all_iff)

lemma alist_update_all: "P (k, v) \<Longrightarrow> list_all P al \<Longrightarrow> list_all P (AList.update k v al)"
  by (induction al) auto

lemma deleteEntry_ok: "shard_ok s \<Longrightarrow> shard_ok (snd (deleteEntry s k))"
  by (auto simp: deleteEntry_def shard_ok_def alist_delete_all lru_delete_inv split: option.splits)

lemma deleteEntry_queue [simp]: "operationQueue (snd (deleteEntry s k)) = operationQueue s"
  by (simp add: deleteEntry_def split: option.splits)

lemma shard_ok_stats [simp]: "shard_ok (s\<lparr>stats := x\<rparr>) = shard_ok s"
  by (simp add: shard_ok_def)

lemma shard_ok_heap [simp]: "shard_ok (s\<lparr>ttlHeap := x\<rparr>) = shard_ok s"
  by (simp add: shard_ok_def)

lemma shard_ok_awaiting [simp]: "shard_ok (s\<lparr>awaiting := x\<rparr>) = shard_ok s"
  by (simp add: shard_ok_def)

lemma shard_ok_processing [simp]: "shard_ok (s\<lparr>isProcessing := x\<rparr>) = shard_ok s"
  by (simp add: shard_ok_def)

lemma get_ok: "shard_ok s \<Longrightarrow> shard_ok (snd (get s now k))"
proof -
  assume ok: "shard_ok s"
  have "shard_ok (s\<lparr>lru := snd (lru_get (lru s) k)\<rparr>)"
    using ok by (simp add: shard_ok_def lru_get_inv)
  then show ?thesis
    using ok deleteEntry_ok[OF ok, of k]
    by (simp add: get_def Let_def split: option.splits)
qed

lemma get_queue [simp]: "operationQueue (snd (get s now k)) = operationQueue s"
  by (simp add: get_def Let_def split: option.splits)

lemma executeIncrement_ok: "shard_ok s \<Longrightarrow> shard_ok (snd (executeIncrement s now u k d))"
proof -
  assume ok: "shard_ok s"
  have "shard_ok (s\<lparr>entries := AList.update k
            \<lparr>key = k, cvalue = VNumber n, version = u, createdAt = c, updatedAt = now,
             expiresAt = None, sizeBytes = 8\<rparr> (entries s),
          lru := snd (lru_set (lru s) k k 8)\<rparr>)" for n c
    using ok by (simp add: shard_ok_def alist_update_all stamp_ok_def lru_set_inv)
  then show ?thesis
    using ok
    by (simp add: executeIncrement_def Let_def split: option.splits sum.splits CacheValue.splits)
qed

lemma executeIncrement_queue [simp]:
  "operationQueue (snd (executeIncrement s now u k d)) = operationQueue s"
  by (simp add: executeIncrement_def Let_def split: option.splits sum.splits CacheValue.splits)

lemma drainEvicted_ok: "shard_ok s \<Longrightarrow> shard_ok (drainEvicted s ks)"
  by (induction ks arbitrary: s) (simp_all add: Let_def deleteEntry_ok)

lemma drainEvicted_queue [simp]: "operationQueue (drainEvicted s ks) = operationQueue s"
  by (induction ks arbitrary: s) (simp_all add: Let_def)

lemma executeSet_ok:
  assumes ok: "shard_ok s" and p: "payload_ok (op_entry operation)"
  shows "shard_ok (snd (executeSet s now u operation))"
proof (cases "op_entry operation")
  case NoEntry
  with ok show ?thesis by (simp add: executeSet_def)
next
  case (Delta d)
  with ok show ?thesis by (simp add: executeSet_def executeIncrement_ok)
next
  case (Entry entry)
  with p have e: "stamp_ok entry" by simp
  let ?k = "op_key operation"
  let ?new = "entry\<lparr>version := u, updatedAt := now,
                     createdAt := createdAt_or (map_of (entries s) ?k) now\<rparr>"
  let ?s1 = "s\<lparr>entries := AList.update ?k ?new (entries s),
               stats := (stats s)\<lparr>sets := sets (stats s) + 1\<rparr>\<rparr>"
  have new: "stamp_ok ?new" using e by (simp add: stamp_ok_def)
  have sz: "0 \<le> sizeBytes ?new" using e by (simp add: stamp_ok_def)
  have "shard_ok (?s1\<lparr>lru := snd (lru_set (lru ?s1) ?k ?k (sizeBytes ?new))\<rparr>)"
    using ok new lru_set_inv[OF _ sz, of "lru s" ?k ?k]
    by (simp add: shard_ok_def alist_update_all)
  then have "shard_ok (drainEvicted (?s1\<lparr>lru := snd (lru_set (lru ?s1) ?k ?k (sizeBytes ?new))\<rparr>)
                 (fst (lru_set (lru ?s1) ?k ?k (sizeBytes ?new))))"
    by (rule drainEvicted_ok)
  then show ?thesis
    using ok Entry
    by (simp add: executeSet_def Let_def split_beta)
qed

lemma executeSet_queue [simp]:
  "operationQueue (snd (executeSet s now u operation)) = operationQueue s"
  by (simp add: executeSet_def Let_def split_beta split: OpPayload.splits)

lemma executeOperation_ok:
  "shard_ok s \<Longrightarrow> payload_ok (op_entry operation) \<Longrightarrow>
   shard_ok (snd (executeOperation s now u operation))"
  by (simp add: executeOperation_def executeSet_ok executeDelete_def executeExpire_def
        executeEvict_def deleteEntry_ok Let_def split_beta split: OpType.splits option.splits)

lemma executeOperation_queue [simp]:
  "operationQueue (snd (executeOperation s now u operation)) = operationQueue s"
  by (simp add: executeOperation_def executeDelete_def executeExpire_def
        executeEvict_def Let_def split_beta split: OpType.splits option.splits)

lemma dispatch_ok: "shard_ok s \<Longrightarrow> shard_ok (dispatch s now mint)"
proof (cases "operationQueue s")
  case Nil
  assume "shard_ok s"
  with Nil show ?thesis by (simp add: dispatch_def)
next
  case (Cons operation rest)
  assume ok: "shard_ok s"
  with Cons have p: "payload_ok (op_entry operation)"
    and ok': "shard_ok (s\<lparr>operationQueue := rest\<rparr>)"
    by (simp_all add: shard_ok_def)
  show ?thesis
    using Cons executeOperation_ok[OF ok' p, of now "mint (op_id operation)"]
    by (simp add: dispatch_def split_beta)
qed

lemma resume_ok: "shard_ok s \<Longrightarrow> shard_ok (snd (resume s now mint))"
  by (simp add: resume_def dispatch_ok split: option.splits)

lemma enqueueOperation_ok:
  assumes ok: "shard_ok s" and p: "payload_ok (op_entry operation)"
  shows "shard_ok (snd (enqueueOperation s now mint operation))"
proof -
  have "shard_ok (s\<lparr>operationQueue := operationQueue s @ [operation]\<rparr>)"
    using ok p by (simp add: shard_ok_def)
  then have "shard_ok (processOperations (s\<lparr>operationQueue := operationQueue s @ [operation]\<rparr>) now mint)"
    by (simp add: processOperations_def dispatch_ok)
  then show ?thesis using ok by (simp add: enqueueOperation_def)
qed

lemma enqueueExpired_ok: "shard_ok s \<Longrightarrow> shard_ok (enqueueExpired s now mint c es)"
  by (induction es arbitrary: s) (simp_all add: enqueueOperation_ok)

lemma processExpirations_ok: "shard_ok s \<Longrightarrow> shard_ok (processExpirations s now mint c)"
  by (simp add: processExpirations_def split_beta enqueueExpired_ok)

lemma calculateValueSize_nonneg: "0 \<le> calculateValueSize v"
  by (cases v) simp_all

lemma createEntry_ok:
  assumes now: "0 < now" and ttl: "valid_ttl ttlSec" and c: "createEntry k v ttlSec now = Inr e"
  shows "stamp_ok e"
proof -
  have "(if truthy_num ttlSec then Some (now + the ttlSec * 1000) else None) \<noteq> Some 0"
  proof (cases ttlSec)
    case None
    then show ?thesis by simp
  next
    case (Some a)
    with ttl have "0 \<le> a" by (simp add: valid_ttl_def TTLSchema_def)
    with now have "a \<noteq> 0 \<longrightarrow> now + a * 1000 \<noteq> 0" by auto
    with Some show ?thesis by simp
  qed
  with c show ?thesis
    by (auto simp: createEntry_def stamp_ok_def calculateValueSize_nonneg split: sum.splits)
qed

lemma new_shard_ok: "shard_ok (new_shard sid mi b mm)"
  by (simp add: new_shard_def shard_ok_def new_lru_def lru_inv_def lru_counts_def)

lemma reachable_ok: "reachable s \<Longrightarrow> shard_ok s"
proof (induction rule: reachable.induct)
  case (r_new sid maxItem budget maxMailbox)
  show ?case by (rule new_shard_ok)
next
  case (r_get s now k)
  then show ?case by (simp add: get_ok)
next
  case (r_set s now ttlSec mint caller k v ifM ifNM)
  show ?case
  proof (cases "createEntry k v ttlSec now")
    case (Inl err)
    with r_set show ?thesis by (simp add: shard_set_def)
  next
    case (Inr e)
    with r_set have "stamp_ok e" by (auto intro: createEntry_ok)
    with r_set Inr show ?thesis by (simp add: shard_set_def enqueueOperation_ok)
  qed
next
  case (r_delete s now mint caller k ifM)
  then show ?case by (simp add: shard_delete_def enqueueOperation_ok)
next
  case (r_increment s now mint caller k delta)
  then show ?case by (simp add: shard_increment_def enqueueOperation_ok)
next
  case (r_resume s now mint)
  then show ?case by (simp add: resume_ok)
next
  case (r_sweep s now mint caller)
  then show ?case by (simp add: processExpirations_ok)
qed

section \<open>Lazy expiry on read\<close>

text \<open>The equations that run the model on a concrete state.\<close>

lemmas eval_defs = shard_set_def createEntry_def validateInferredValue_def enqueueOperation_def
  processOperations_def dispatch_def executeOperation_def executeSet_def new_shard_def new_lru_def
  new_stats_def lru_set_def cache_get_def addToFront_def moveToFront_def evictLoop.simps evictLRU_def
  push_def heapifyUp.simps isExpired_def createdAt_or_def mint_ex_def show_nat.simps Let_def
  deleteEntry_def lru_delete_def lru_get_def get_def

lemma shard_ttl_run:
  "snd (shard_set (new_shard 0 1024 None 1000) 1000 mint_ex 0 ''t'' (JString ''x'') (Some 1) None False)
     = shard_ttl"
  by (simp add: shard_ttl_def entry_t_def eval_defs)

lemma shard_ttl_reachable: "reachable shard_ttl"
proof -
  have "reachable (snd (shard_set (new_shard 0 1024 None 1000) 1000 mint_ex 0 ''t''
                          (JString ''x'') (Some 1) None False))"
    by (rule reachable.r_set[OF reachable.r_new]) (simp_all add: valid_ttl_def TTLSchema_def)
  then show ?thesis by (simp only: shard_ttl_run)
qed

lemma cache_get_removed:
  "distinct (map nkey ns) \<Longrightarrow> find (\<lambda>n. nkey n = k) (removeNode k ns) = None"
  using removeNode_distinct[of ns k] by (auto simp: find_None_iff)

lemma deleteEntry_removes:
  assumes "lru_inv (lru s)"
  shows "map_of (entries (snd (deleteEntry s k))) k = None"
    and "map_of (entries s) k \<noteq> None \<Longrightarrow> cache_get (lru (snd (deleteEntry s k))) k = None"
proof -
  show "map_of (entries (snd (deleteEntry s k))) k = None"
    by (simp add: deleteEntry_def AList.delete_conv split: option.splits)
  assume "map_of (entries s) k \<noteq> None"
  then obtain e where e: "map_of (entries s) k = Some e" by auto
  have d: "distinct (map nkey (nodes (lru s)))" using assms by (simp add: lru_inv_def)
  show "cache_get (lru (snd (deleteEntry s k))) k = None"
  proof (cases "cache_get (lru s) k")
    case None
    with e show ?thesis by (simp add: deleteEntry_def lru_delete_def)
  next
    case (Some n)
    with e show ?thesis
      using cache_get_removed[OF d, of k]
      by (simp add: deleteEntry_def lru_delete_def cache_get_def)
  qed
qed

lemma expired_truthy:
  "stamp_ok e \<Longrightarrow> (truthy_num (expiresAt e) \<and> the (expiresAt e) \<le> now) = expired e now"
  by (cases "expiresAt e") (auto simp: stamp_ok_def expired_def)

lemma stored_stamp_ok: "shard_ok s \<Longrightarrow> map_of (entries s) k = Some e \<Longrightarrow> stamp_ok e"
  by (auto simp: shard_ok_def list_all_iff dest: map_of_SomeD)

text \<open>
  Claim C3.  In every reachable state, for every key and clock reading: if the stored
  entry has an \<open>expiresAt\<close> that the clock has reached, \<open>get\<close> returns nothing, the
  key is gone from the entry index and from the LRU, and \<open>misses\<close> and \<open>expirations\<close>
  have each grown by one; the sweeper plays no part.  Hence an entry that \<open>get\<close>
  returns is never expired.
\<close>

theorem get_never_returns_expired:
  assumes r: "reachable s"
  shows "(\<forall>e. map_of (entries s) k = Some e \<and> expired e now \<longrightarrow>
            fst (get s now k) = None \<and>
            map_of (entries (snd (get s now k))) k = None \<and>
            cache_get (lru (snd (get s now k))) k = None \<and>
            misses (stats (snd (get s now k))) = misses (stats s) + 1 \<and>
            expirations (stats (snd (get s now k))) = expirations (stats s) + 1) \<and>
         (\<forall>e. fst (get s now k) = Some e \<longrightarrow> \<not> expired e now)"
proof -
  have ok: "shard_ok s" using r by (rule reachable_ok)
  then have li: "lru_inv (lru s)" by (simp add: shard_ok_def)
  have del_stats: "stats (snd (deleteEntry s k)) = stats s"
    by (simp add: deleteEntry_def split: option.splits)
  show ?thesis
  proof (intro conjI allI impI)
    fix e assume a: "map_of (entries s) k = Some e \<and> expired e now"
    then have st: "stamp_ok e" using stored_stamp_ok[OF ok] by blast
    with a have c: "truthy_num (expiresAt e) \<and> the (expiresAt e) \<le> now"
      by (simp add: expired_truthy)
    have g: "get s now k =
               (None, (snd (deleteEntry s k))\<lparr>stats := (stats (snd (deleteEntry s k)))
                   \<lparr>misses := misses (stats (snd (deleteEntry s k))) + 1,
                    expirations := expirations (stats (snd (deleteEntry s k))) + 1\<rparr>\<rparr>)"
      using a c by (simp add: get_def Let_def)
    show "fst (get s now k) = None" by (simp add: g)
    show "map_of (entries (snd (get s now k))) k = None"
      using deleteEntry_removes(1)[OF li, of k] by (simp add: g)
    show "cache_get (lru (snd (get s now k))) k = None"
      using deleteEntry_removes(2)[OF li, of k] a by (simp add: g cache_get_def)
    show "misses (stats (snd (get s now k))) = misses (stats s) + 1"
      by (simp add: g del_stats)
    show "expirations (stats (snd (get s now k))) = expirations (stats s) + 1"
      by (simp add: g del_stats)
  next
    fix e assume a: "fst (get s now k) = Some e"
    then have m: "map_of (entries s) k = Some e"
      by (auto simp: get_def Let_def split: option.splits if_splits)
    then have st: "stamp_ok e" using stored_stamp_ok[OF ok] by blast
    from a m have "\<not> (truthy_num (expiresAt e) \<and> the (expiresAt e) \<le> now)"
      by (auto simp: get_def Let_def split: if_splits)
    with st show "\<not> expired e now" by (simp add: expired_truthy)
  qed
qed

theorem get_never_returns_expired_witness:
  "reachable shard_ttl \<and>
   map_of (entries shard_ttl) ''t'' = Some entry_t \<and> expired entry_t 2200 \<and>
   fst (get shard_ttl 2200 ''t'') = None \<and>
   map_of (entries (snd (get shard_ttl 2200 ''t''))) ''t'' = None \<and>
   cache_get (lru (snd (get shard_ttl 2200 ''t''))) ''t'' = None \<and>
   misses (stats (snd (get shard_ttl 2200 ''t''))) = misses (stats shard_ttl) + 1 \<and>
   expirations (stats (snd (get shard_ttl 2200 ''t''))) = expirations (stats shard_ttl) + 1 \<and>
   fst (get shard_ttl 1500 ''t'') = Some entry_t \<and> \<not> expired entry_t 1500"
proof -
  have h: "reachable shard_ttl" by (rule shard_ttl_reachable)
  have a: "map_of (entries shard_ttl) ''t'' = Some entry_t \<and> expired entry_t 2200"
    by (simp add: shard_ttl_def entry_t_def expired_def)
  have b: "fst (get shard_ttl 1500 ''t'') = Some entry_t"
    by (simp add: shard_ttl_def entry_t_def get_def)
  show ?thesis
    using h a b get_never_returns_expired[OF h, of "''t''" 2200]
      get_never_returns_expired[OF h, of "''t''" 1500]
    by blast
qed

section \<open>Conditional writes\<close>

lemma isExpired_expired:
  "shard_ok s \<Longrightarrow>
   (if isExpired (map_of (entries s) k) now then None else map_of (entries s) k) =
   (if effectively_present s k now then map_of (entries s) k else None)"
proof (cases "map_of (entries s) k")
  case None
  then show ?thesis by (simp add: isExpired_def effectively_present_def)
next
  case (Some e)
  assume ok: "shard_ok s"
  have "stamp_ok e" using stored_stamp_ok[OF ok Some] .
  with Some show ?thesis
    by (simp add: isExpired_def effectively_present_def expired_truthy)
qed

text \<open>
  Claim C4, as amended.  In every reachable state, for a write with an entry: a stored
  entry that is expired by the wall clock counts as absent.  If \<open>ifNoneMatch\<close> is set
  and the key is effectively present, the write fails with Conflict \<open>Key already
  exists\<close> (detail \<open>{key}\<close>) and the state is unchanged.  If \<open>ifMatch\<close> is set to a
  non-empty token, that first check did not fire, and the key is effectively absent or
  its version differs, the write fails with Conflict \<open>Version mismatch\<close> (detail
  \<open>{key, expected, actual}\<close>, \<open>actual\<close> being \<open>null\<close> for an absent key) and the
  state is unchanged.  A write without \<open>ifMatch\<close> to an effectively absent key that
  fits \<open>maxItemBytes\<close> succeeds, also with \<open>ifNoneMatch\<close>.  The version check is
  stated for a non-empty token only.
\<close>

theorem cas_conditional_set:
  assumes r: "reachable s" and plain: "op_entry operation = Entry entry"
  shows "(ifNoneMatch operation \<and> effectively_present s (op_key operation) now \<longrightarrow>
            executeSet s now ulid operation =
              (Inl (ConflictError ''Key already exists'' [(''key'', DString (op_key operation))]),
               s)) \<and>
         (truthy_str (ifMatch operation) \<and>
          \<not> (ifNoneMatch operation \<and> effectively_present s (op_key operation) now) \<and>
          (\<not> effectively_present s (op_key operation) now \<or>
           version (the (map_of (entries s) (op_key operation))) \<noteq> the (ifMatch operation)) \<longrightarrow>
            executeSet s now ulid operation =
              (Inl (ConflictError ''Version mismatch''
                      [(''key'', DString (op_key operation)),
                       (''expected'', DString (the (ifMatch operation))),
                       (''actual'',
                        actual_version
                          (if effectively_present s (op_key operation) now
                           then map_of (entries s) (op_key operation) else None))]),
               s)) \<and>
         (\<not> effectively_present s (op_key operation) now \<and> ifMatch operation = None \<and>
          sizeBytes entry \<le> maxItemBytes s \<longrightarrow>
            fst (executeSet s now ulid operation) = Inr (SetResult ulid (expiresAt entry)))"
proof -
  let ?k = "op_key operation"
  have ok: "shard_ok s" using r by (rule reachable_ok)
  note eff = isExpired_expired[OF ok, of ?k now]
  have present: "effectively_present s ?k now \<Longrightarrow> map_of (entries s) ?k \<noteq> None"
    by (auto simp: effectively_present_def split: option.splits)
  show ?thesis
  proof (intro conjI impI)
    assume "ifNoneMatch operation \<and> effectively_present s ?k now"
    then show "executeSet s now ulid operation =
              (Inl (ConflictError ''Key already exists'' [(''key'', DString ?k)]), s)"
      using plain present by (simp add: executeSet_def Let_def eff)
  next
    assume a: "truthy_str (ifMatch operation) \<and>
          \<not> (ifNoneMatch operation \<and> effectively_present s ?k now) \<and>
          (\<not> effectively_present s ?k now \<or>
           version (the (map_of (entries s) ?k)) \<noteq> the (ifMatch operation))"
    show "executeSet s now ulid operation =
              (Inl (ConflictError ''Version mismatch''
                      [(''key'', DString ?k),
                       (''expected'', DString (the (ifMatch operation))),
                       (''actual'',
                        actual_version
                          (if effectively_present s ?k now then map_of (entries s) ?k else None))]),
               s)"
    proof (cases "effectively_present s ?k now")
      case True
      with a present show ?thesis
        using plain by (simp add: executeSet_def Let_def eff)
    next
      case False
      with a show ?thesis
        using plain by (simp add: executeSet_def Let_def eff)
    qed
  next
    assume "\<not> effectively_present s ?k now \<and> ifMatch operation = None \<and>
          sizeBytes entry \<le> maxItemBytes s"
    then show "fst (executeSet s now ulid operation) = Inr (SetResult ulid (expiresAt entry))"
      using plain by (simp add: executeSet_def Let_def eff split_beta)
  qed
qed

theorem cas_conditional_set_witness:
  "reachable shard_ttl \<and> op_entry (op_put None True) = Entry entry_update \<and>
   ifNoneMatch (op_put None True) \<and> effectively_present shard_ttl ''t'' 1500 \<and>
   executeSet shard_ttl 1500 ''ulid1'' (op_put None True) =
     (Inl (ConflictError ''Key already exists'' [(''key'', DString ''t'')]), shard_ttl) \<and>
   truthy_str (ifMatch (op_put (Some ''ulid0'') False)) \<and>
   \<not> effectively_present shard_ttl ''t'' 2200 \<and>
   executeSet shard_ttl 2200 ''ulid1'' (op_put (Some ''ulid0'') False) =
     (Inl (ConflictError ''Version mismatch''
             [(''key'', DString ''t''), (''expected'', DString ''ulid0''), (''actual'', DNull)]),
      shard_ttl) \<and>
   ifMatch (op_put None True) = None \<and> sizeBytes entry_update \<le> maxItemBytes shard_ttl \<and>
   fst (executeSet shard_ttl 2200 ''ulid1'' (op_put None True)) = Inr (SetResult ''ulid1'' None)"
proof -
  have h: "reachable shard_ttl" by (rule shard_ttl_reachable)
  have p1: "op_entry (op_put None True) = Entry entry_update" by (simp add: op_put_def)
  have p2: "op_entry (op_put (Some ''ulid0'') False) = Entry entry_update" by (simp add: op_put_def)
  have a: "ifNoneMatch (op_put None True) \<and> effectively_present shard_ttl ''t'' 1500"
    by (simp add: op_put_def shard_ttl_def entry_t_def effectively_present_def expired_def)
  have b: "truthy_str (ifMatch (op_put (Some ''ulid0'') False)) \<and>
           \<not> ifNoneMatch (op_put (Some ''ulid0'') False) \<and>
           \<not> effectively_present shard_ttl ''t'' 2200"
    by (simp add: op_put_def shard_ttl_def entry_t_def effectively_present_def expired_def)
  have c: "ifMatch (op_put None True) = None \<and>
           sizeBytes entry_update \<le> maxItemBytes shard_ttl"
    by (simp add: op_put_def shard_ttl_def entry_update_def)
  have k: "op_key (op_put x y) = ''t''" for x y by (simp add: op_put_def)
  have e: "expiresAt entry_update = None" by (simp add: entry_update_def)
  have av: "actual_version None = DNull" by (simp add: actual_version_def)
  have m: "the (ifMatch (op_put (Some ''ulid0'') False)) = ''ulid0''" by (simp add: op_put_def)
  show ?thesis
    using h p1 a b c
      cas_conditional_set[OF h p1, of 1500 "''ulid1''"]
      cas_conditional_set[OF h p2, of 2200 "''ulid1''"]
      cas_conditional_set[OF h p1, of 2200 "''ulid1''"]
    by (simp add: k e av m)
qed

text \<open>
  Claim C4 as stated fails in two ways.  When both headers are sent, with \<open>ifMatch\<close>
  set to a version that differs from the live entry's, the Conflict that comes back is
  the one of \<open>ifNoneMatch\<close>, whose detail has neither \<open>expected\<close> nor \<open>actual\<close>.  And
  when \<open>If-Match\<close> is sent with the empty token, the handler's format check and the
  version check of \<open>executeSet\<close> both take the header for absent: the write to a live
  entry of another version goes through, and \<open>PUT\<close> answers 200.
\<close>

theorem cas_if_match_detail_counterexample:
  "truthy_str (ifMatch (op_put (Some ''stale'') True)) \<and>
   effectively_present shard_ttl ''t'' 1500 \<and>
   version (the (map_of (entries shard_ttl) ''t'')) \<noteq> the (ifMatch (op_put (Some ''stale'') True)) \<and>
   executeSet shard_ttl 1500 ''ulid1'' (op_put (Some ''stale'') True) =
     (Inl (ConflictError ''Key already exists'' [(''key'', DString ''t'')]), shard_ttl) \<and>
   map_of [(''key'', DString ''t'')] ''expected'' = None \<and>
   map_of [(''key'', DString ''t'')] ''actual'' = None \<and>
   ifMatch (op_put (Some []) False) = Some [] \<and> \<not> ifNoneMatch (op_put (Some []) False) \<and>
   version (the (map_of (entries shard_ttl) ''t'')) \<noteq> the (ifMatch (op_put (Some []) False)) \<and>
   fst (executeSet shard_ttl 1500 ''ulid1'' (op_put (Some []) False)) =
     Inr (SetResult ''ulid1'' None) \<and>
   map_of (entries (snd (executeSet shard_ttl 1500 ''ulid1'' (op_put (Some []) False)))) ''t'' =
     Some (entry_update\<lparr>version := ''ulid1'', createdAt := 1000\<rparr>) \<and>
   fst (putRoute store_ttl 1024 1500 mint_ex 1 ''t'' (JString ''updated'') None 19 (Some [])
          None) =
     Some \<lparr>status = 200, headers = [], body = VersionBody ''ulid1'' None\<rparr>"
proof -
  have both:
    "truthy_str (ifMatch (op_put (Some ''stale'') True)) \<and>
     effectively_present shard_ttl ''t'' 1500 \<and>
     version (the (map_of (entries shard_ttl) ''t'')) \<noteq>
       the (ifMatch (op_put (Some ''stale'') True)) \<and>
     executeSet shard_ttl 1500 ''ulid1'' (op_put (Some ''stale'') True) =
       (Inl (ConflictError ''Key already exists'' [(''key'', DString ''t'')]), shard_ttl) \<and>
     map_of [(''key'', DString ''t'')] ''expected'' = None \<and>
     map_of [(''key'', DString ''t'')] ''actual'' = None"
    by (simp add: op_put_def shard_ttl_def entry_t_def effectively_present_def expired_def
          executeSet_def isExpired_def Let_def)
  have empty:
    "ifMatch (op_put (Some []) False) = Some [] \<and> \<not> ifNoneMatch (op_put (Some []) False) \<and>
     version (the (map_of (entries shard_ttl) ''t'')) \<noteq> the (ifMatch (op_put (Some []) False)) \<and>
     fst (executeSet shard_ttl 1500 ''ulid1'' (op_put (Some []) False)) =
       Inr (SetResult ''ulid1'' None) \<and>
     map_of (entries (snd (executeSet shard_ttl 1500 ''ulid1'' (op_put (Some []) False)))) ''t'' =
       Some (entry_update\<lparr>version := ''ulid1'', createdAt := 1000\<rparr>)"
    by (simp add: op_put_def shard_ttl_def entry_t_def entry_update_def eval_defs)
  have route:
    "fst (putRoute store_ttl 1024 1500 mint_ex 1 ''t'' (JString ''updated'') None 19 (Some [])
            None) =
       Some \<lparr>status = 200, headers = [], body = VersionBody ''ulid1'' None\<rparr>"
    by (simp add: store_ttl_def shard_ttl_idle_def shard_ttl_def entry_t_def putRoute_def
          KeySchema_def VersionSchema_def store_get_def store_set_def checkBackpressure_def
          getShardForKey_def simpleHash_def numShards_def await_reply_def drain_def resume_def
          eval_defs)
  show ?thesis using both empty route by blast
qed

section \<open>Where the code departs from the specification\<close>

text \<open>More equations for running the model: store and routes, sweeper, batches.\<close>

lemmas store_defs = store_get_def store_set_def store_delete_def store_increment_def
  checkBackpressure_def getShardForKey_def simpleHash_def numShards_def await_reply_def
  drain_def resume_def shard_delete_def shard_increment_def executeDelete_def executeExpire_def
  executeIncrement_def KeySchema_def VersionSchema_def deleteRoute_def putRoute_def
  errorHandler_def NotFoundError_def ConflictError_def BadRequestError_def

lemmas sweeper_defs = processExpirations_def popExpired.simps pop_def heapifyDown.simps
  smallestOf_def swap_def

lemma shard_ttl_idle_run: "snd (resume shard_ttl 1000 mint_ex) = shard_ttl_idle"
  by (simp add: shard_ttl_idle_def shard_ttl_def resume_def dispatch_def)

text \<open>
  Claim C1 fails on the code.  The key \<open>t\<close> is written with a TTL of one second and
  written again half a second later, with a TTL of 100 seconds (or with none).  At clock
  reading 2500 the sweeper pops the record of the first write; the live entry is not
  expired, yet after the sweep the key is gone.
\<close>

theorem sweeper_removes_overwritten_entry:
  "snd (resume (snd (shard_set shard_ttl_idle 1500 mint_ex 1 ''t'' (JString ''y'') (Some 100)
                       None False)) 1500 mint_ex) = shard_extended \<and>
   map_of (entries shard_extended) ''t'' = Some entry_t_extended \<and>
   \<not> expired entry_t_extended 2500 \<and>
   map_of (entries (processExpirations shard_extended 2500 mint_ex 9)) ''t'' = None \<and>
   snd (resume (snd (shard_set shard_ttl_idle 1500 mint_ex 1 ''t'' (JString ''y'') None
                       None False)) 1500 mint_ex) = shard_untimed \<and>
   map_of (entries shard_untimed) ''t'' = Some entry_t_untimed \<and>
   \<not> expired entry_t_untimed 2500 \<and>
   map_of (entries (processExpirations shard_untimed 2500 mint_ex 9)) ''t'' = None"
  by (simp add: shard_extended_def shard_untimed_def entry_t_extended_def entry_t_untimed_def
        shard_ttl_idle_def shard_ttl_def entry_t_def expired_def eval_defs store_defs sweeper_defs)

text \<open>
  The write path does drain: a \<open>set\<close> of the same eight bytes in the same state evicts
  \<open>a\<close> from the LRU and from the entry index, and the accounting invariant holds.
\<close>

lemma set_drains_evicted_keys:
  "entries (snd (executeSet shard_budget 1100 ''ulid1'' (op_set ''b'' (entry_b\<lparr>version := []\<rparr>)))) =
     [(''b'', entry_b)] \<and>
   evictions (stats (snd (executeSet shard_budget 1100 ''ulid1''
                            (op_set ''b'' (entry_b\<lparr>version := []\<rparr>))))) = 1 \<and>
   accounting_ok (snd (executeSet shard_budget 1100 ''ulid1''
                         (op_set ''b'' (entry_b\<lparr>version := []\<rparr>))))"
  by (simp add: shard_budget_def entry_a_def entry_b_def op_set_def accounting_ok_def
        eval_defs store_defs)

text \<open>
  Claim C2 fails on the code.  On a shard with a budget of ten bytes that holds the
  eight-byte entry \<open>a\<close> and satisfies the accounting invariant, \<open>increment('b', 1)\<close>
  makes the LRU evict \<open>a\<close>, but \<open>a\<close> stays in the entry index: two entries of
  sixteen bytes against one node of eight bytes.
\<close>

theorem increment_breaks_accounting:
  "snd (resume (snd (shard_set (new_shard 0 1024 (Some 10) 1000) 1000 mint_ex 0 ''a'' (JNumber 1)
                       None None False)) 1000 mint_ex) = shard_budget \<and>
   accounting_ok shard_budget \<and>
   entries (snd (executeIncrement shard_budget 1100 ''ulid1'' ''b'' 1)) =
     [(''a'', entry_a), (''b'', entry_b)] \<and>
   nodes (lru (snd (executeIncrement shard_budget 1100 ''ulid1'' ''b'' 1))) =
     [\<lparr>nkey = ''b'', nvalue = ''b'', nsizeBytes = 8\<rparr>] \<and>
   currentSizeBytes (lru (snd (executeIncrement shard_budget 1100 ''ulid1'' ''b'' 1))) = 8 \<and>
   lru_size (lru (snd (executeIncrement shard_budget 1100 ''ulid1'' ''b'' 1))) = 1 \<and>
   \<not> accounting_ok (snd (executeIncrement shard_budget 1100 ''ulid1'' ''b'' 1))"
  by (simp add: shard_budget_def entry_a_def entry_b_def accounting_ok_def eval_defs store_defs)

text \<open>Every operation offered to a full mailbox is rejected, with the same plain error.\<close>

lemma mailbox_full_rejection:
  "maxMailboxSize s \<le> int (length (operationQueue s)) \<Longrightarrow>
   enqueueOperation s now mint operation = (Some (plain_error ''Shard mailbox full''), s)"
  by (simp add: enqueueOperation_def)

text \<open>
  Claim C6 fails on the code.  A mutation offered to a shard whose mailbox is full is
  rejected with a plain \<open>Error\<close>, which the error handler answers with status 500 and
  code \<open>INTERNAL\<close>, without a \<open>Retry-After\<close> header.
\<close>

theorem mailbox_full_is_internal_error:
  "snd (shard_delete (snd (shard_delete (new_shard 0 1024 None 1) 5000 mint_ex 1 ''a'' None))
          5000 mint_ex 2 ''b'' None) = shard_full \<and>
   int (length (operationQueue shard_full)) \<ge> maxMailboxSize shard_full \<and>
   shard_delete shard_full 5000 mint_ex 3 ''c'' None =
     (Some (plain_error ''Shard mailbox full''), shard_full) \<and>
   errorHandler (plain_error ''Shard mailbox full'') =
     \<lparr>status = 500, headers = [], body = ErrorBody ''INTERNAL'' ''Internal server error''\<rparr>"
  by (simp add: shard_full_def op_delete_def plain_error_def store_defs eval_defs)

text \<open>
  Claim C8 fails on the code.  At clock reading 2200 the entry \<open>t\<close> (expired at 2000)
  is still in the index; \<open>executeDelete\<close> removes it and returns \<open>true\<close>, and the route
  answers 204.
\<close>

theorem delete_of_expired_key_succeeds:
  "snd (store_set (new_store 1 1024 None 1000 1000) 1000 mint_ex 0 ''t'' (JString ''x'') (Some 1)
          None False) = store_ttl \<and>
   map_of (entries shard_ttl_idle) ''t'' = Some entry_t \<and> expired entry_t 2200 \<and>
   executeDelete shard_ttl_idle (op_delete 1 ''t'') =
     (Inr (BoolResult True),
      shard_ttl_idle\<lparr>entries := [], lru := new_lru Infinity Infinity,
                     stats := new_stats\<lparr>sets := 1, deletes := 1\<rparr>\<rparr>) \<and>
   fst (deleteRoute store_ttl 2200 mint_ex 1 ''t'' None) =
     Some \<lparr>status = 204, headers = [], body = NoBody\<rparr> \<and>
   map_of (entries (shards (snd (deleteRoute store_ttl 2200 mint_ex 1 ''t'' None)) ! 0)) ''t'' = None"
  by (simp add: store_ttl_def shard_ttl_idle_def shard_ttl_def entry_t_def expired_def op_delete_def
        new_store_def store_defs eval_defs)

lemmas batch_defs = batchDelete_def batchSet_def issue_order_def drainAll_def settle_def
  sortResults_def order_index_def keyOrder_def new_store_def

text \<open>
  What the sort does achieve: it keeps the number of results, and when the input keys
  are pairwise distinct it puts the results in input order, in whatever order the
  promises settled.
\<close>

lemma keyOrder_distinct:
  assumes d: "distinct ks" and i: "i < length ks"
  shows "keyOrder ks (ks ! i) = Some i"
proof -
  let ?z = "zip ks [0..<length ks]"
  have df: "distinct (map fst ?z)" using d by simp
  have "distinct (map fst (rev ?z))" using df by (simp add: rev_map[symmetric] del: rev_map)
  moreover have "set (rev ?z) = set ?z" by simp
  ultimately have "map_of (rev ?z) = map_of ?z" using df by (simp add: map_of_inject_set)
  moreover have "map_of ?z (ks ! i) = Some ([0..<length ks] ! i)"
    using d i by (intro map_of_zip_nth) simp_all
  ultimately show ?thesis using i by (simp add: keyOrder_def)
qed

lemma order_index_distinct:
  "distinct ks \<Longrightarrow> i < length ks \<Longrightarrow> order_index ks (ks ! i) = i"
  by (simp add: order_index_def keyOrder_distinct)

lemma order_index_nth:
  assumes d: "distinct ks" and k: "k \<in> set ks"
  shows "order_index ks k < length ks \<and> ks ! order_index ks k = k"
proof -
  from k obtain i where "i < length ks" "ks ! i = k" by (auto simp: in_set_conv_nth)
  with d show ?thesis using order_index_distinct[of ks i] by auto
qed

lemma sortResults_length: "length (sortResults ks rs) = length rs"
  by (simp add: sortResults_def)

lemma sortResults_distinct_keys:
  assumes d: "distinct ks" and p: "mset (map br_key rs) = mset ks"
  shows "map br_key (sortResults ks rs) = ks"
proof -
  let ?f = "\<lambda>r. order_index ks (br_key r)"
  let ?sorted = "sort_key ?f rs"
  have idx: "map (order_index ks) ks = [0..<length ks]"
    using d by (intro nth_equalityI) (simp_all add: order_index_distinct)
  have "mset (map ?f ?sorted) = image_mset (order_index ks) (mset (map br_key rs))"
    by (simp add: image_mset.compositionality comp_def)
  also have "\<dots> = mset (map (order_index ks) ks)" using p by simp
  also have "\<dots> = mset [0..<length ks]" by (simp only: idx)
  finally have m: "mset (map ?f ?sorted) = mset [0..<length ks]" .
  have s: "sorted (map ?f ?sorted)" by (rule sorted_sort_key)
  have "sort [0..<length ks] = map ?f ?sorted"
    using m s by (rule properties_for_sort)
  then have fs: "map ?f ?sorted = [0..<length ks]" by (simp add: sorted_sort_id)
  have keys: "br_key r \<in> set ks" if "r \<in> set ?sorted" for r
  proof -
    from that have "r \<in> set rs" by simp
    then have "br_key r \<in> set (map br_key rs)" by simp
    then show ?thesis using p by (metis set_mset_mset)
  qed
  have "map br_key ?sorted = map (\<lambda>r. ks ! ?f r) ?sorted"
    using order_index_nth[OF d] keys by (intro map_cong) simp_all
  also have "\<dots> = map ((!) ks) (map ?f ?sorted)" by simp
  also have "\<dots> = ks" by (simp only: fs map_nth)
  finally show ?thesis by (simp add: sortResults_def)
qed

text \<open>
  Whatever the input keys, the keys of the sorted results do not depend on the order in
  which the results were pushed: a key of the input is found again at its sort index.
\<close>

lemma order_index_member:
  assumes k: "k \<in> set ks"
  shows "order_index ks k < length ks \<and> ks ! order_index ks k = k"
proof -
  let ?z = "rev (zip ks [0..<length ks])"
  have "k \<in> fst ` set ?z" using k by (simp add: set_zip in_set_conv_nth image_iff) force
  then obtain i where m: "map_of ?z k = Some i"
    by (cases "map_of ?z k") (auto simp: map_of_eq_None_iff)
  then have "(k, i) \<in> set (zip ks [0..<length ks])" by (auto dest: map_of_SomeD)
  then have "i < length ks \<and> ks ! i = k" by (auto simp: set_zip)
  then show ?thesis using m by (simp add: order_index_def keyOrder_def)
qed

lemma sortResults_keys_any_order:
  assumes p: "mset rs' = mset rs" and keys: "\<forall>r \<in> set rs. br_key r \<in> set ks"
  shows "map br_key (sortResults ks rs') = map br_key (sortResults ks rs)"
proof -
  let ?f = "\<lambda>r. order_index ks (br_key r)"
  have shape: "map br_key (sort_key ?f xs) = map ((!) ks) (sort (map ?f rs))"
    if q: "mset xs = mset rs" for xs
  proof -
    have "mset (map ?f (sort_key ?f xs)) = mset (map ?f rs)" using q by simp
    moreover have "sorted (map ?f (sort_key ?f xs))" by (rule sorted_sort_key)
    ultimately have e: "sort (map ?f rs) = map ?f (sort_key ?f xs)"
      by (rule properties_for_sort)
    have "set xs = set rs" using q by (rule mset_eq_setD)
    then have "br_key r = ks ! ?f r" if "r \<in> set (sort_key ?f xs)" for r
      using that keys order_index_member[of "br_key r" ks] by simp
    then have "map br_key (sort_key ?f xs) = map (\<lambda>r. ks ! ?f r) (sort_key ?f xs)"
      by (intro map_cong) simp_all
    also have "\<dots> = map ((!) ks) (map ?f (sort_key ?f xs))" by simp
    finally show ?thesis by (simp only: e)
  qed
  show ?thesis using shape[OF p] shape[OF refl] by (simp add: sortResults_def)
qed

text \<open>
  Claim C7 fails on the code.  For the keys \<open>a, b, a\<close> both batch calls return three
  results, but in the order \<open>b, a, a\<close>: the first result does not reference the first
  input key.
\<close>

theorem batch_results_out_of_input_order:
  "result_keys (fst (batchDelete (new_store 1 1024 None 1000 1000) 1000 mint_ex
                       [''a'', ''b'', ''a''])) = Some [''b'', ''a'', ''a''] \<and>
   map item_key items_aba = [''a'', ''b'', ''a''] \<and>
   result_keys (fst (batchSet (new_store 1 1024 None 1000 1000) 1000 mint_ex items_aba))
     = Some [''b'', ''a'', ''a'']"
  by (simp add: result_keys_def items_aba_def batch_defs store_defs eval_defs upt_conv_Cons)

section \<open>Increment on an expired entry\<close>

lemma shard_counter_reachable: "reachable shard_counter"
proof -
  have "snd (shard_set (new_shard 0 1024 None 1000) 1000 mint_ex 0 ''c'' (JNumber 5) (Some 1)
               None False) = shard_counter"
    by (simp add: shard_counter_def entry_c_def eval_defs)
  moreover have "reachable (snd (shard_set (new_shard 0 1024 None 1000) 1000 mint_ex 0 ''c''
                          (JNumber 5) (Some 1) None False))"
    by (rule reachable.r_set[OF reachable.r_new]) (simp_all add: valid_ttl_def TTLSchema_def)
  ultimately show ?thesis by simp
qed

text \<open>
  The public \<open>increment\<close> on an idle shard with room in its mailbox is executed at
  once by \<open>executeIncrement\<close>, which reads the stored value whatever its \<open>expiresAt\<close>:
  the answer held for the caller is the stored number plus \<open>delta\<close> (stated for safe
  integers, where the sum of the model is the sum of the source), the entry is stored
  anew without \<open>expiresAt\<close>, and the heap of expirations is left as it was.
\<close>

lemma shard_increment_idle:
  assumes idle: "\<not> isProcessing s" and empty: "operationQueue s = []"
    and room: "0 < maxMailboxSize s"
  shows "fst (shard_increment s now mint caller k delta) = None \<and>
         awaiting (snd (shard_increment s now mint caller k delta)) =
           Some (caller, fst (executeIncrement s now (mint caller) k delta)) \<and>
         entries (snd (shard_increment s now mint caller k delta)) =
           entries (snd (executeIncrement s now (mint caller) k delta)) \<and>
         ttlHeap (snd (shard_increment s now mint caller k delta)) = ttlHeap s"
  using assms
  by (simp add: shard_increment_def enqueueOperation_def processOperations_def dispatch_def
        executeOperation_def executeSet_def executeIncrement_def Let_def split_beta
      split: option.splits CacheValue.splits)

lemma executeIncrement_stored_number:
  assumes m: "map_of (entries s) k = Some e" and n: "cvalue e = VNumber n"
    and exact: "safe_integer n" "safe_integer delta" "safe_integer (n + delta)"
  shows "fst (executeIncrement s now ulid k delta) = Inr (IncrResult (n + delta) ulid) \<and>
         map_of (entries (snd (executeIncrement s now ulid k delta))) k =
           Some \<lparr>key = k, cvalue = VNumber (n + delta), version = ulid,
                 createdAt = createdAt_or (Some e) now, updatedAt = now,
                 expiresAt = None, sizeBytes = 8\<rparr>"
  using m n by (simp add: executeIncrement_def Let_def AList.update_conv)

lemma shard_increment_stored_number:
  assumes idle: "\<not> isProcessing s" and empty: "operationQueue s = []"
    and room: "0 < maxMailboxSize s"
    and m: "map_of (entries s) k = Some e" and n: "cvalue e = VNumber n"
    and exact: "safe_integer n" "safe_integer delta" "safe_integer (n + delta)"
  shows "fst (shard_increment s now mint caller k delta) = None \<and>
         awaiting (snd (shard_increment s now mint caller k delta)) =
           Some (caller, Inr (IncrResult (n + delta) (mint caller))) \<and>
         map_of (entries (snd (shard_increment s now mint caller k delta))) k =
           Some \<lparr>key = k, cvalue = VNumber (n + delta), version = mint caller,
                 createdAt = createdAt_or (Some e) now, updatedAt = now,
                 expiresAt = None, sizeBytes = 8\<rparr> \<and>
         ttlHeap (snd (shard_increment s now mint caller k delta)) = ttlHeap s"
  using shard_increment_idle[OF idle empty room, of now mint caller k delta]
    executeIncrement_stored_number[OF m n exact, of now "mint caller"]
  by simp

lemma shard_resurrected_reachable: "reachable shard_resurrected"
proof -
  have "snd (resume (snd (shard_increment (snd (resume shard_counter 1000 mint_ex)) 2200 mint_ex
                             1 ''c'' 3)) 2200 mint_ex) = shard_resurrected"
    by (simp add: shard_resurrected_def shard_counter_idle_def shard_counter_def entry_c_def
          entry_c_resurrected_def store_defs eval_defs)
  moreover have "reachable (snd (resume (snd (shard_increment
                    (snd (resume shard_counter 1000 mint_ex)) 2200 mint_ex 1 ''c'' 3))
                    2200 mint_ex))"
    by (intro reachable.r_resume reachable.r_increment shard_counter_reachable)
  ultimately show ?thesis by simp
qed

text \<open>
  Claim C10 fails on the code.  A counter written with a TTL of one second at clock
  reading 1000 is expired at 2200.  There \<open>increment('c', 3)\<close> answers 8, the stale 5
  plus 3 and not \<open>0 + 3\<close>, and stores the counter without \<open>expiresAt\<close>; \<open>get\<close> returns
  it at 2300, and a create-only write in the same state succeeds as for an absent key.
  So far the code does what the claim says.  But the entry is not permanent: the heap
  record of the first write is still in the heap, the sweeper's tick at 2500 pops it
  and removes the entry that has no expiry (the defect of claim C1), and \<open>get\<close> at 2600
  finds nothing.
\<close>

theorem resurrected_counter_is_swept:
  "store_set (new_store 1 1024 None 1000 1000) 1000 mint_ex 0 ''c'' (JNumber 5) (Some 1) None
     False = (Some (Inr (SetResult ''ulid0'' (Some 2000))), store_counter) \<and>
   shards store_counter = [shard_counter_idle] \<and>
   map_of (entries shard_counter_idle) ''c'' = Some entry_c \<and>
   cvalue entry_c = VNumber 5 \<and> expired entry_c 2200 \<and>
   fst (store_set store_counter 2200 mint_ex 1 ''c'' (JNumber 3) None None True) =
     Some (Inr (SetResult ''ulid1'' None)) \<and>
   store_increment store_counter 2200 mint_ex 1 ''c'' 3 =
     (Some (Inr (IncrResult 8 ''ulid1'')), store_counter\<lparr>shards := [shard_resurrected]\<rparr>) \<and>
   map_of (entries shard_resurrected) ''c'' = Some entry_c_resurrected \<and>
   cvalue entry_c_resurrected = VNumber 8 \<and> expiresAt entry_c_resurrected = None \<and>
   fst (get shard_resurrected 2300 ''c'') = Some entry_c_resurrected \<and>
   map_of (entries (processExpirations shard_resurrected 2500 mint_ex 9)) ''c'' = None \<and>
   fst (get (processExpirations shard_resurrected 2500 mint_ex 9) 2600 ''c'') = None"
  by (simp add: store_counter_def shard_resurrected_def shard_counter_idle_def shard_counter_def
        entry_c_def entry_c_resurrected_def expired_def new_store_def TTLSchema_def
        store_defs eval_defs sweeper_defs)


section \<open>TTL zero\<close>





end
